theory Spec2Isabelle
  imports Main "HOL-Library.Word" "HOL-Library.Sublist"
begin

unbundle bit_operations_syntax

section \<open>WinLamb: a shallow embedding of the message dispatch and the helper containers\<close>

text \<open>
  The library targets x64 Windows: \<open>size_t\<close>, \<open>WPARAM\<close>, \<open>LPARAM\<close>, \<open>LRESULT\<close>,
  \<open>INT_PTR\<close> and every pointer are 64 bits wide, \<open>UINT\<close> and \<open>int\<close> are 32 bits,
  \<open>WORD\<close> and \<open>wchar_t\<close> are 16 bits and \<open>BYTE\<close> is 8 bits.
\<close>

type_synonym size_t = "64 word"
type_synonym UINT = "32 word"
type_synonym int32 = "32 word" \<comment> \<open>\<open>int\<close>: the 32 bits, read as two's complement by \<open>sint\<close>\<close>
type_synonym WORD = "16 word"
type_synonym BYTE = "8 word"
type_synonym wchar_t = "16 word"
type_synonym WPARAM = "64 word"
type_synonym LPARAM = "64 word"
type_synonym LRESULT = "64 word"
type_synonym INT_PTR = "64 word"
type_synonym HWND = "64 word"
type_synonym pointer = "64 word"

subsection \<open>Errors\<close>

text \<open>
  What a call can end with instead of a value. The first four are C++ exceptions
  (\<open>std::logic_error\<close>, \<open>std::system_error\<close>, \<open>std::out_of_range\<close>, and any exception
  a user callback throws); the last two stand for undefined behaviour: a read past the end
  of a string view, and the use of a pointer that does not point to an object of the
  expected type.
\<close>

datatype error =
    Logic_Error | System_Error | Out_Of_Range | User_Exception
  | Out_Of_Bounds | Invalid_Pointer

fun is_exception :: "error \<Rightarrow> bool" where
  "is_exception Out_Of_Bounds = False"
| "is_exception Invalid_Pointer = False"
| "is_exception _ = True"

subsection \<open>insert_order_map.h\<close>

text \<open>\<open>struct entry { K key; V val; }\<close>; the map is the vector \<open>_entries\<close>.\<close>

record ('k, 'v) entry =
  key :: 'k
  val :: 'v

type_synonym ('k, 'v) insert_order_map = "('k, 'v) entry list"

text \<open>
  \<open>_find_idx\<close>: the loop \<open>for (size_t i = 0; i < _entries.size(); ++i)\<close>, here running
  over the entries that are left with the index \<open>i\<close> carried along; \<open>return -1\<close> is the
  \<open>size_t\<close> with all bits set.
\<close>

fun find_idx_loop :: "('k, 'v) entry list \<Rightarrow> nat \<Rightarrow> 'k \<Rightarrow> size_t" where
  "find_idx_loop [] i k = - 1"
| "find_idx_loop (e # es) i k = (if key e = k then of_nat i else find_idx_loop es (Suc i) k)"

definition find_idx :: "('k, 'v) insert_order_map \<Rightarrow> 'k \<Rightarrow> size_t" where
  "find_idx entries k = find_idx_loop entries 0 k"

definition contains :: "('k, 'v) insert_order_map \<Rightarrow> 'k \<Rightarrow> bool" where
  "contains entries k \<longleftrightarrow> find_idx entries k \<noteq> - 1"

text \<open>
  An iterator is the position it points to (\<open>begin() + idx\<close>, and \<open>--end()\<close> is the last
  position). \<open>emplace(key, val)\<close> returns the pair (iterator, inserted) and the map after
  the call.
\<close>

definition emplace ::
  "('k, 'v) insert_order_map \<Rightarrow> 'k \<Rightarrow> 'v \<Rightarrow> (nat \<times> bool) \<times> ('k, 'v) insert_order_map" where
  "emplace entries k v =
     (let idx = find_idx entries k in
      if idx = - 1 then
        (let entries' = entries @ [\<lparr>key = k, val = v\<rparr>]
         in ((length entries' - 1, True), entries'))
      else ((0 + unat idx, False), entries))"

text \<open>
  \<open>emplace(key)\<close> builds the entry with \<open>entry(const K& key) : key{key} { }\<close>, which
  names the key only: the value is default-initialised. For a class type that runs the
  default constructor; for a scalar type it does nothing, and the value is whatever the
  storage of the new entry held.
\<close>

datatype 'v default_initialisation = Default_Constructed 'v | Uninitialised

definition default_initialised :: "'v default_initialisation \<Rightarrow> 'v \<Rightarrow> 'v" where
  "default_initialised init storage =
     (case init of Default_Constructed d \<Rightarrow> d | Uninitialised \<Rightarrow> storage)"

definition emplace_key ::
  "'v default_initialisation \<Rightarrow> 'v \<Rightarrow> ('k, 'v) insert_order_map \<Rightarrow> 'k
     \<Rightarrow> (nat \<times> bool) \<times> ('k, 'v) insert_order_map" where
  "emplace_key init storage entries k =
     (let idx = find_idx entries k in
      if idx = - 1 then
        (let entries' = entries @ [\<lparr>key = k, val = default_initialised init storage\<rparr>]
         in ((length entries' - 1, True), entries'))
      else ((0 + unat idx, False), entries))"

text \<open>
  \<open>operator[]\<close> returns a reference to a value inside the vector: the position of the
  entry whose \<open>val\<close> is referred to, with the map after the call.
\<close>

definition subscript ::
  "'v default_initialisation \<Rightarrow> 'v \<Rightarrow> ('k, 'v) insert_order_map \<Rightarrow> 'k
     \<Rightarrow> nat \<times> ('k, 'v) insert_order_map" where
  "subscript init storage entries k =
     (let idx = find_idx entries k in
      if idx = - 1 then
        (case emplace_key init storage entries k of
           ((it, inserted), entries') \<Rightarrow> (it, entries'))
      else (unat idx, entries))"

definition clear :: "('k, 'v) insert_order_map \<Rightarrow> ('k, 'v) insert_order_map" where
  "clear entries = []"

text \<open>A vector cannot hold as many elements as the largest \<open>size_t\<close>.\<close>

definition fits_size_t :: "'a list \<Rightarrow> bool" where
  "fits_size_t xs \<longleftrightarrow> length xs < 2 ^ 64 - 1"


subsection \<open>str.h\<close>

type_synonym wstring = "wchar_t list"

definition CR :: wchar_t where "CR = 0x0D"
definition LF :: wchar_t where "LF = 0x0A"

text \<open>
  \<open>s[i]\<close> on a \<open>std::wstring_view\<close>: defined only for \<open>i < s.length()\<close>.
\<close>

definition at :: "wstring \<Rightarrow> size_t \<Rightarrow> wchar_t option" where
  "at s i = (if unat i < length s then Some (s ! unat i) else None)"

text \<open>
  \<open>guess_linebreak\<close>: the loop \<open>for (size_t i = 0; i < s.length() - 1; ++i)\<close>, with the
  bound \<open>lim = s.length() - 1\<close> computed in \<open>size_t\<close>. The result is paired with the list
  of the indices read so far, in the order they are read. The returned \<open>const wchar_t*\<close>
  is the string literal it points to, \<open>None\<close> for \<open>nullptr\<close>.
\<close>

function guess_linebreak_loop ::
  "wstring \<Rightarrow> size_t \<Rightarrow> size_t \<Rightarrow> nat list \<Rightarrow> nat list \<times> (error + wstring option)" where
  "guess_linebreak_loop s lim i reads =
     (if i < lim then
        (case at s i of
           None \<Rightarrow> (reads @ [unat i], Inl Out_Of_Bounds)
         | Some c \<Rightarrow>
             if c = CR then
               (case at s (i + 1) of
                  None \<Rightarrow> (reads @ [unat i, unat (i + 1)], Inl Out_Of_Bounds)
                | Some c' \<Rightarrow>
                    (reads @ [unat i, unat (i + 1)],
                     Inr (Some (if c' = LF then [CR, LF] else [CR]))))
             else if c = LF then
               (case at s (i + 1) of
                  None \<Rightarrow> (reads @ [unat i, unat (i + 1)], Inl Out_Of_Bounds)
                | Some c' \<Rightarrow>
                    (reads @ [unat i, unat (i + 1)],
                     Inr (Some (if c' = CR then [LF, CR] else [LF]))))
             else guess_linebreak_loop s lim (i + 1) (reads @ [unat i]))
      else (reads, Inr None))"
  by pat_completeness auto
termination
proof (relation "measure (\<lambda>(s, lim, i, reads). unat lim - unat i)")
  show "wf (measure (\<lambda>(s, lim, i, reads). unat lim - unat i))" by simp
next
  fix s :: wstring and lim i :: size_t and reads :: "nat list" and c :: wchar_t
  assume "i < lim"
  then have lt: "unat i < unat lim" by (simp add: word_less_nat_alt)
  have "unat lim < 2 ^ 64" using unsigned_less [of lim] by simp
  with lt have "unat (i + 1) = unat i + 1"
    by (simp add: unat_word_ariths)
  with lt show "((s, lim, i + 1, reads @ [unat i]), (s, lim, i, reads))
      \<in> measure (\<lambda>(s, lim, i, reads). unat lim - unat i)" by simp
qed

declare guess_linebreak_loop.simps [simp del]

definition guess_linebreak :: "wstring \<Rightarrow> nat list \<times> (error + wstring option)" where
  "guess_linebreak s = guess_linebreak_loop s (of_nat (length s) - 1) 0 []"

text \<open>
  \<open>std::wstring_view::find(v, pos)\<close>: the lowest position \<open>p \<ge> pos\<close> at which \<open>v\<close> occurs
  in the view, \<open>None\<close> for \<open>npos\<close>. Every position it returns is at most the length of
  the view, so \<open>size_t\<close> arithmetic on it does not wrap and positions are natural numbers.
\<close>

fun find_in :: "'a list \<Rightarrow> 'a list \<Rightarrow> nat \<Rightarrow> nat option" where
  "find_in [] v p = (if v = [] then Some p else None)"
| "find_in (c # cs) v p = (if prefix v (c # cs) then Some p else find_in cs v (Suc p))"

definition sv_find :: "'a list \<Rightarrow> 'a list \<Rightarrow> nat \<Rightarrow> nat option" where
  "sv_find s v pos = (if pos > length s then None else find_in (drop pos s) v pos)"

text \<open>
  \<open>ret.emplace_back(); ret.back().insert(0, s, base, n)\<close> appends the piece
  \<open>s.substr(base, n)\<close>: \<open>std::out_of_range\<close> when \<open>base > s.length()\<close>, otherwise the
  characters from \<open>base\<close>, at most \<open>n\<close> of them.
\<close>

definition push_piece ::
  "wstring list \<Rightarrow> wstring \<Rightarrow> nat \<Rightarrow> nat \<Rightarrow> error + wstring list" where
  "push_piece ret s base n =
     (if base > length s then Inl Out_Of_Range else Inr (ret @ [take n (drop base s)]))"

text \<open>
  The \<open>for (;;)\<close> loop of \<open>split\<close> and the statements after it. The loop is entered with
  a non-empty delimiter only (\<open>split\<close> returns before it otherwise), which is what makes
  \<open>head\<close> advance; the first test below records that.
\<close>

function split_loop ::
  "wstring \<Rightarrow> wstring \<Rightarrow> nat \<Rightarrow> nat \<Rightarrow> wstring list \<Rightarrow> error + wstring list" where
  "split_loop s delimiter base head ret =
     (if delimiter = [] then Inr ret
      else
        (case sv_find s delimiter head of
           None \<Rightarrow> push_piece ret s base (length s - base)
         | Some head' \<Rightarrow>
             (case push_piece ret s base (head' - base) of
                Inl e \<Rightarrow> Inl e
              | Inr ret' \<Rightarrow>
                  split_loop s delimiter
                    (head' + length delimiter) (head' + length delimiter) ret')))"
  by pat_completeness auto

termination
proof (relation "measure (\<lambda>(s, delimiter, base, head, ret). Suc (length s) - head)")
  show "wf (measure (\<lambda>(s, delimiter, base, head, ret). Suc (length s) - head))" by simp
next
  fix s delimiter :: wstring and base head head' :: nat and ret ret' :: "wstring list"
  assume d: "delimiter \<noteq> []" and f: "sv_find s delimiter head = Some head'"
  have "p \<le> q" if "find_in xs delimiter p = Some q" for xs :: wstring and p q
    using that by (induction xs arbitrary: p) (auto split: if_splits dest: Suc_leD)
  with f have "head \<le> head'" "head \<le> length s"
    by (auto simp: sv_find_def split: if_splits)
  with d show "((s, delimiter, head' + length delimiter, head' + length delimiter, ret'),
                (s, delimiter, base, head, ret))
      \<in> measure (\<lambda>(s, delimiter, base, head, ret). Suc (length s) - head)"
    by (cases delimiter) auto
qed

declare split_loop.simps [simp del]

text \<open>\<open>split\<close>: the two early returns, then the loop from \<open>base = 0, head = 0\<close>.\<close>

definition split :: "wstring \<Rightarrow> wstring \<Rightarrow> error + wstring list" where
  "split s delimiter =
     (if s = [] then Inr []
      else if delimiter = [] then Inr [s]
      else split_loop s delimiter 0 0 [])"

text \<open>
  What the pieces are compared with: \<open>join d pieces\<close> writes the pieces one after the
  other with \<open>d\<close> between neighbours, and \<open>count_occurrences s d\<close> counts the occurrences
  of \<open>d\<close> in \<open>s\<close> from left to right, each one starting after the end of the one before.
\<close>

fun join :: "'a list \<Rightarrow> 'a list list \<Rightarrow> 'a list" where
  "join d [] = []"
| "join d [p] = p"
| "join d (p # q # ps) = p @ d @ join d (q # ps)"

function count_occurrences :: "'a list \<Rightarrow> 'a list \<Rightarrow> nat" where
  "count_occurrences s d =
     (if d = [] \<or> s = [] then 0
      else if prefix d s then Suc (count_occurrences (drop (length d) s) d)
      else count_occurrences (tl s) d)"
  by pat_completeness auto
termination
  by (relation "measure (\<lambda>(s, d). length s)") auto

declare count_occurrences.simps [simp del]

subsection \<open>accel_table.h\<close>

text \<open>The Win32 \<open>ACCEL\<close> structure: \<open>BYTE fVirt; WORD key; WORD cmd\<close>.\<close>

record ACCEL =
  accel_fVirt :: BYTE
  accel_key :: WORD
  accel_cmd :: WORD

definition FVIRTKEY :: BYTE where "FVIRTKEY = 0x01"
definition FSHIFT :: BYTE where "FSHIFT = 0x04"
definition FCONTROL :: BYTE where "FCONTROL = 0x08"
definition FALT :: BYTE where "FALT = 0x10"

text \<open>
  \<open>enum class modif : BYTE\<close> with flag operators defined on it: a value is any byte.
\<close>

type_synonym modif = BYTE

definition NONE :: modif where "NONE = FVIRTKEY"
definition CTRL :: modif where "CTRL = FVIRTKEY OR FCONTROL"
definition SHIFT :: modif where "SHIFT = FVIRTKEY OR FSHIFT"
definition ALT :: modif where "ALT = FVIRTKEY OR FALT"

record accel_table =
  accels :: "ACCEL list"
  hAccel :: pointer

definition new_accel_table :: accel_table where
  "new_accel_table = \<lparr>accels = [], hAccel = 0\<rparr>"

text \<open>
  \<open>add_char\<close>. \<open>CharUpperBuffW(&ch, 1)\<close> is the system's upper-casing of one character,
  the parameter \<open>CharUpperW\<close>; \<open>cmdId\<close> is an \<open>int\<close> cut to a \<open>WORD\<close>. The call ends
  with the exception or with \<open>*this\<close>; the table after the call is the second component.
\<close>

definition add_char ::
  "(wchar_t \<Rightarrow> wchar_t) \<Rightarrow> wchar_t \<Rightarrow> modif \<Rightarrow> int32 \<Rightarrow> accel_table
     \<Rightarrow> (error + unit) \<times> accel_table" where
  "add_char CharUpperW ch modifiers cmdId t =
     (if hAccel t \<noteq> 0 then (Inl Logic_Error, t)
      else
        (let ch' = CharUpperW ch
         in (Inr (),
             t\<lparr>accels := accels t @
                  [\<lparr>accel_fVirt = modifiers, accel_key = ch', accel_cmd = ucast cmdId\<rparr>]\<rparr>)))"

definition add_key ::
  "WORD \<Rightarrow> modif \<Rightarrow> int32 \<Rightarrow> accel_table \<Rightarrow> (error + unit) \<times> accel_table" where
  "add_key vKey modifiers cmdId t =
     (if hAccel t \<noteq> 0 then (Inl Logic_Error, t)
      else
        (Inr (),
         t\<lparr>accels := accels t @
              [\<lparr>accel_fVirt = modifiers, accel_key = vKey, accel_cmd = ucast cmdId\<rparr>]\<rparr>))"

text \<open>
  \<open>_build\<close> and \<open>haccel\<close>. \<open>CreateAcceleratorTableW\<close> is the system call, a parameter:
  it returns the new handle, null when it fails.
\<close>

definition build :: "(ACCEL list \<Rightarrow> pointer) \<Rightarrow> accel_table \<Rightarrow> (error + unit) \<times> accel_table" where
  "build CreateAcceleratorTableW t =
     (if hAccel t = 0 \<and> length (accels t) \<noteq> 0 then
        (let t' = t\<lparr>hAccel := CreateAcceleratorTableW (accels t)\<rparr>
         in if hAccel t' = 0 then (Inl System_Error, t')
            else (Inr (), t'\<lparr>accels := []\<rparr>))
      else (Inr (), t))"

definition haccel ::
  "(ACCEL list \<Rightarrow> pointer) \<Rightarrow> accel_table \<Rightarrow> (error + pointer) \<times> accel_table" where
  "haccel CreateAcceleratorTableW t =
     (case build CreateAcceleratorTableW t of
        (Inl e, t') \<Rightarrow> (Inl e, t')
      | (Inr u, t') \<Rightarrow> (Inr (hAccel t'), t'))"

subsection \<open>Win32 constants and structures used by the dispatch\<close>

definition WM_CREATE :: UINT where "WM_CREATE = 0x0001"
definition WM_CLOSE :: UINT where "WM_CLOSE = 0x0010"
definition WM_SETFONT :: UINT where "WM_SETFONT = 0x0030"
definition WM_GETFONT :: UINT where "WM_GETFONT = 0x0031"
definition WM_GETHOTKEY :: UINT where "WM_GETHOTKEY = 0x0033"
definition WM_QUERYDRAGICON :: UINT where "WM_QUERYDRAGICON = 0x0037"
definition WM_COPYDATA :: UINT where "WM_COPYDATA = 0x004A"
definition WM_NOTIFY :: UINT where "WM_NOTIFY = 0x004E"
definition WM_INPUTLANGCHANGE :: UINT where "WM_INPUTLANGCHANGE = 0x0051"
definition WM_HELP :: UINT where "WM_HELP = 0x0053"
definition WM_NCDESTROY :: UINT where "WM_NCDESTROY = 0x0082"
definition WM_INITDIALOG :: UINT where "WM_INITDIALOG = 0x0110"
definition WM_COMMAND :: UINT where "WM_COMMAND = 0x0111"
definition WM_QUERYNEWPALETTE :: UINT where "WM_QUERYNEWPALETTE = 0x030F"
definition WM_APP :: UINT where "WM_APP = 0x8000"

definition TRUE :: "64 word" where "TRUE = 1"
definition FALSE :: "64 word" where "FALSE = 0"

definition LOWORD :: "64 word \<Rightarrow> WORD" where
  "LOWORD l = ucast (l AND 0xffff)"

definition MAKELPARAM :: "WORD \<Rightarrow> WORD \<Rightarrow> LPARAM" where
  "MAKELPARAM l h = ucast l OR push_bit 16 (ucast h)"

record NMHDR =
  hwndFrom :: HWND
  idFrom :: "64 word"
  code :: UINT

subsection \<open>param_wm.h, ui_work.h\<close>

text \<open>\<open>struct wm { WPARAM wparam; LPARAM lparam; }\<close>\<close>

record wm =
  wparam :: WPARAM
  lparam :: LPARAM

definition WM_UI_WORK_THREAD :: UINT where
  "WM_UI_WORK_THREAD = WM_APP + 0x3fff"

subsection \<open>The state that callbacks run in\<close>

text \<open>
  A callback is arbitrary user code. It runs in the state of the process: the
  application's own data (\<open>user\<close>, of any type), the heap cells that hold a
  \<open>std::function<void()>\<close> (\<open>funcs\<close>, by address), the memory that holds the
  \<open>NMHDR\<close> structures which \<open>WM_NOTIFY\<close> messages point to (\<open>nmhdrs\<close>), and whether a quit
  message has been posted to the thread. A \<open>std::function<void()>\<close> acts on the
  application data and either returns or ends with an error; a message handler,
  \<open>std::function<LRESULT(wl::msg::wm)>\<close>, acts on the whole process state.
\<close>

record 'u process =
  user :: 'u
  funcs :: "pointer \<rightharpoonup> ('u \<Rightarrow> (error + unit) \<times> 'u)"
  nmhdrs :: "pointer \<rightharpoonup> NMHDR"
  quit_posted :: bool

type_synonym 'u handler = "wm \<Rightarrow> 'u process \<Rightarrow> (error + LRESULT) \<times> 'u process"

subsection \<open>catch_all_excps.h and store.h\<close>

datatype post_quit_on_catch = YES | NO

text \<open>
  Modelled from the spec: \<open>catch_all_excps.h\<close> is not among the sources. Its callers pass
  a function and \<open>post_quit_on_catch::YES\<close> or \<open>NO\<close>, and rely on it (they are
  \<open>noexcept\<close>) to let no exception out: it runs the function, and when the function ends
  with an exception it catches it and, as the second argument's name says, posts a quit
  message when asked to. The result tells whether the function completed (\<open>Some\<close> of what
  it produced) or was cut short by an exception (\<open>None\<close>). Undefined behaviour is not an
  exception and is not caught.
\<close>

definition catch_all_excps ::
  "('u process \<Rightarrow> (error + 'a) \<times> 'u process) \<Rightarrow> post_quit_on_catch \<Rightarrow> 'u process
     \<Rightarrow> (error + 'a option) \<times> 'u process" where
  "catch_all_excps func catchAction p =
     (case func p of
        (Inr a, p') \<Rightarrow> (Inr (Some a), p')
      | (Inl e, p') \<Rightarrow>
          if is_exception e then
            (Inr None, if catchAction = YES then p'\<lparr>quit_posted := True\<rparr> else p')
          else (Inl e, p'))"

text \<open>
  Modelled from the spec: \<open>store.h\<close> is not among the sources. The spec calls the store
  a linear, keyed table of registered callbacks; its users call \<open>add(key, func)\<close>,
  \<open>add({keys}, func)\<close> and \<open>find(key)\<close>, which yields a pointer to the callback or
  \<open>nullptr\<close>. The table is the list of the registrations in the order they were made.
  Where a key was registered more than once, \<open>find\<close> yields the latest registration:
  the window classes register their default handlers in their constructors, before the
  user's, and warn that a user handler for the same message takes their place.
\<close>

type_synonym ('k, 'u) store = "('k \<times> 'u handler) list"

definition store_add :: "('k, 'u) store \<Rightarrow> 'k \<Rightarrow> 'u handler \<Rightarrow> ('k, 'u) store" where
  "store_add st k func = st @ [(k, func)]"

definition store_add_list :: "('k, 'u) store \<Rightarrow> 'k list \<Rightarrow> 'u handler \<Rightarrow> ('k, 'u) store" where
  "store_add_list st ks func = st @ map (\<lambda>k. (k, func)) ks"

definition store_find :: "('k, 'u) store \<Rightarrow> 'k \<Rightarrow> 'u handler option" where
  "store_find st k = map_of (rev st) k"

subsection \<open>msg_proxy.h, msg_proxy_all.h\<close>

text \<open>
  \<open>base_msg_handler\<close> owns the three stores; its \<open>msg_proxy_all\<close> holds references to
  them and the flag \<open>_isDialog\<close>. A registration through the proxy changes the stores of
  the handler that owns it, so the proxy is the handler's record itself.
\<close>

record 'u base_msg_handler =
  msgs :: "(UINT, 'u) store"
  cmds :: "(WORD, 'u) store"
  nfys :: "(64 word \<times> int32, 'u) store"
  isDialog :: bool

type_synonym 'u msg_proxy_all = "'u base_msg_handler"

text \<open>\<open>msg_proxy::wm(message, func)\<close>\<close>

definition wm :: "'u msg_proxy_all \<Rightarrow> UINT \<Rightarrow> 'u handler \<Rightarrow> 'u msg_proxy_all" where
  "wm h message func = h\<lparr>msgs := store_add (msgs h) message func\<rparr>"

text \<open>
  The macros that define the named registration methods. Each wraps the user's function
  and registers the wrapper with \<open>wm(dwmsg, ...)\<close>: \<open>WINLAMB_MSG_RET_VAL\<close> runs the
  function and returns the fixed number, \<open>WINLAMB_MSG_RET_ZERO\<close> is
  \<open>WINLAMB_MSG_RET_VAL\<close> with \<open>isDialog ? TRUE : 0\<close>, and \<open>WINLAMB_MSG_RET_TYPE\<close> returns
  what the function returned, converted to \<open>LRESULT\<close> (\<open>conv\<close>). Each macro defines the
  method twice, for a function that takes the message parameters and for one that takes
  none; the second differs only in not passing the parameters on.
\<close>

definition WINLAMB_MSG_RET_VAL ::
  "UINT \<Rightarrow> LRESULT \<Rightarrow> 'u msg_proxy_all \<Rightarrow> (wm \<Rightarrow> 'u process \<Rightarrow> (error + unit) \<times> 'u process)
     \<Rightarrow> 'u msg_proxy_all" where
  "WINLAMB_MSG_RET_VAL dwmsg RET_NUMBER h func =
     wm h dwmsg (\<lambda>p pr. case func p pr of
                           (Inl e, pr') \<Rightarrow> (Inl e, pr')
                         | (Inr u, pr') \<Rightarrow> (Inr RET_NUMBER, pr'))"

definition WINLAMB_MSG_RET_ZERO ::
  "UINT \<Rightarrow> 'u msg_proxy_all \<Rightarrow> (wm \<Rightarrow> 'u process \<Rightarrow> (error + unit) \<times> 'u process)
     \<Rightarrow> 'u msg_proxy_all" where
  "WINLAMB_MSG_RET_ZERO dwmsg h func =
     WINLAMB_MSG_RET_VAL dwmsg (if isDialog h then TRUE else 0) h func"

definition WINLAMB_MSG_RET_TYPE ::
  "UINT \<Rightarrow> ('r \<Rightarrow> LRESULT) \<Rightarrow> 'u msg_proxy_all
     \<Rightarrow> (wm \<Rightarrow> 'u process \<Rightarrow> (error + 'r) \<times> 'u process) \<Rightarrow> 'u msg_proxy_all" where
  "WINLAMB_MSG_RET_TYPE dwmsg conv h func =
     wm h dwmsg (\<lambda>p pr. case func p pr of
                           (Inl e, pr') \<Rightarrow> (Inl e, pr')
                         | (Inr r, pr') \<Rightarrow> (Inr (conv r), pr'))"

definition bool_to_LRESULT :: "bool \<Rightarrow> LRESULT" where
  "bool_to_LRESULT b = (if b then 1 else 0)"

text \<open>The named methods, with the message each macro call in \<open>msg_proxy.h\<close> passes.\<close>

definition wm_close where
  "wm_close = WINLAMB_MSG_RET_ZERO WM_CLOSE"

definition wm_copy_data where
  "wm_copy_data = WINLAMB_MSG_RET_TYPE WM_CREATE bool_to_LRESULT"

definition wm_create where
  "wm_create = WINLAMB_MSG_RET_TYPE WM_CREATE (scast :: int32 \<Rightarrow> LRESULT)"

definition wm_get_font where
  "wm_get_font = WINLAMB_MSG_RET_TYPE WM_GETFONT (id :: pointer \<Rightarrow> LRESULT)"

definition wm_get_hot_key where
  "wm_get_hot_key = WINLAMB_MSG_RET_TYPE WM_GETFONT (ucast :: WORD \<Rightarrow> LRESULT)"

definition wm_help where
  "wm_help = WINLAMB_MSG_RET_VAL WM_HELP TRUE"

definition wm_input_lang_change where
  "wm_input_lang_change = WINLAMB_MSG_RET_VAL WM_HELP 1"

definition wm_query_drag_icon where
  "wm_query_drag_icon = WINLAMB_MSG_RET_TYPE WM_QUERYNEWPALETTE (id :: pointer \<Rightarrow> LRESULT)"

definition wm_query_new_palette where
  "wm_query_new_palette = WINLAMB_MSG_RET_TYPE WM_QUERYNEWPALETTE bool_to_LRESULT"

text \<open>\<open>msg_proxy_all::wm_command(commandId, func)\<close> and \<open>wm_notify(ctrlId, notifCode, func)\<close>\<close>

definition wm_command ::
  "'u msg_proxy_all \<Rightarrow> WORD \<Rightarrow> (wm \<Rightarrow> 'u process \<Rightarrow> (error + unit) \<times> 'u process)
     \<Rightarrow> 'u msg_proxy_all" where
  "wm_command h commandId func =
     h\<lparr>cmds := store_add (cmds h) commandId
          (\<lambda>p pr. case func p pr of
                     (Inl e, pr') \<Rightarrow> (Inl e, pr')
                   | (Inr u, pr') \<Rightarrow> (Inr (if isDialog h then TRUE else 0), pr'))\<rparr>"

definition wm_notify ::
  "'u msg_proxy_all \<Rightarrow> WORD \<Rightarrow> int32 \<Rightarrow> 'u handler \<Rightarrow> 'u msg_proxy_all" where
  "wm_notify h ctrlId notifCode func =
     h\<lparr>nfys := store_add (nfys h) (ucast ctrlId, notifCode) func\<rparr>"

subsection \<open>base_msg_handler.h\<close>

text \<open>
  \<open>exec\<close>, first half: the \<open>if\<close> chain that sets \<open>userFunc\<close>. For \<open>WM_NOTIFY\<close> it reads
  the \<open>NMHDR\<close> that \<open>lp\<close> points to, which is undefined when \<open>lp\<close> points to none.
\<close>

definition search_handler ::
  "'u base_msg_handler \<Rightarrow> UINT \<Rightarrow> WPARAM \<Rightarrow> LPARAM \<Rightarrow> 'u process
     \<Rightarrow> error + 'u handler option" where
  "search_handler h msg wp lp p =
     (if msg = WM_COMMAND then Inr (store_find (cmds h) (LOWORD wp))
      else if msg = WM_NOTIFY then
        (case nmhdrs p lp of
           None \<Rightarrow> Inl Invalid_Pointer
         | Some nmhdr \<Rightarrow> Inr (store_find (nfys h) (idFrom nmhdr, code nmhdr)))
      else Inr (store_find (msgs h) msg))"

text \<open>
  \<open>exec\<close>: \<open>retVal\<close> starts as 0 and is assigned inside the function given to
  \<open>catch_all_excps\<close>, so it keeps the 0 when the handler does not complete.
\<close>

definition exec ::
  "'u base_msg_handler \<Rightarrow> UINT \<Rightarrow> WPARAM \<Rightarrow> LPARAM \<Rightarrow> 'u process
     \<Rightarrow> (error + LRESULT option) \<times> 'u process" where
  "exec h msg wp lp p =
     (case search_handler h msg wp lp p of
        Inl e \<Rightarrow> (Inl e, p)
      | Inr None \<Rightarrow> (Inr None, p)
      | Inr (Some userFunc) \<Rightarrow>
          (let retVal = 0 in
           case catch_all_excps (userFunc \<lparr>wparam = wp, lparam = lp\<rparr>) YES p of
             (Inl e, p') \<Rightarrow> (Inl e, p')
           | (Inr None, p') \<Rightarrow> (Inr (Some retVal), p')
           | (Inr (Some r), p') \<Rightarrow> (Inr (Some r), p')))"

text \<open>
  The handler that \<open>_default_msg_handlers\<close> registers for \<open>WM_UI_WORK_THREAD\<close>. The
  function it finds at \<open>lparam\<close> runs on the application data; \<open>delete pFunc\<close> frees
  the cell.
\<close>

definition ui_work_thread_handler :: "'u handler" where
  "ui_work_thread_handler p pr =
     (if wparam p = 0xc0def00d \<and> lparam p \<noteq> 0 then
        (case funcs pr (lparam p) of
           None \<Rightarrow> (Inl Invalid_Pointer, pr)
         | Some pFunc \<Rightarrow>
             (case catch_all_excps
                     (\<lambda>pr. case pFunc (user pr) of (r, u') \<Rightarrow> (r, pr\<lparr>user := u'\<rparr>)) YES pr of
                (Inl e, pr') \<Rightarrow> (Inl e, pr')
              | (Inr done, pr') \<Rightarrow>
                  (Inr 0, pr'\<lparr>funcs := (funcs pr')(lparam p := None)\<rparr>)))
      else (Inr 0, pr))"

definition default_msg_handlers :: "'u base_msg_handler \<Rightarrow> 'u base_msg_handler" where
  "default_msg_handlers h = wm h WM_UI_WORK_THREAD ui_work_thread_handler"

text \<open>The constructor \<open>base_msg_handler(bool isDialog)\<close>\<close>

definition new_base_msg_handler :: "bool \<Rightarrow> 'u base_msg_handler" where
  "new_base_msg_handler isDlg =
     default_msg_handlers \<lparr>msgs = [], cmds = [], nfys = [], isDialog = isDlg\<rparr>"

subsection \<open>base_dialog.h\<close>

record 'u base_dialog =
  hWnd :: HWND
  msgHandler :: "'u base_msg_handler"

definition new_base_dialog :: "'u base_dialog" where
  "new_base_dialog = \<lparr>hWnd = 0, msgHandler = new_base_msg_handler True\<rparr>"

text \<open>
  \<open>on_msg\<close>: the exception, or the proxy of the dialog's message handler; the dialog
  after the call is the second component.
\<close>

definition on_msg :: "'u base_dialog \<Rightarrow> (error + 'u msg_proxy_all) \<times> 'u base_dialog" where
  "on_msg d =
     (if hWnd d \<noteq> 0 then (Inl Logic_Error, d)
      else (Inr (msgHandler d), d))"

text \<open>
  A registration as the window classes and their users write it,
  \<open>on_msg().method(args)\<close>: the method runs on the proxy that \<open>on_msg\<close> returned, which
  stands for the stores of this dialog.
\<close>

definition on_msg_register ::
  "('u msg_proxy_all \<Rightarrow> 'u msg_proxy_all) \<Rightarrow> 'u base_dialog \<Rightarrow> (error + unit) \<times> 'u base_dialog" where
  "on_msg_register method d =
     (case on_msg d of
        (Inl e, d') \<Rightarrow> (Inl e, d')
      | (Inr proxy, d') \<Rightarrow> (Inr (), d'\<lparr>msgHandler := method proxy\<rparr>))"

text \<open>
  The dialog procedure runs on more than the process state of the callbacks: the
  \<open>base_dialog\<close> objects, by address, and the \<open>DWLP_USER\<close> slot of every window, which is
  0 until something is stored in it.
\<close>

record 'u system =
  proc :: "'u process"
  dialogs :: "pointer \<rightharpoonup> 'u base_dialog"
  dwlp_user :: "HWND \<Rightarrow> 64 word"

text \<open>
  What is outside the library: \<open>SendMessageW\<close>, which has the window procedure of the
  target window handle the message before it returns, and the windows that
  \<open>EnumChildWindows\<close> passes to its callback.
\<close>

record 'u os =
  SendMessageW :: "HWND \<Rightarrow> UINT \<Rightarrow> WPARAM \<Rightarrow> LPARAM \<Rightarrow> 'u system \<Rightarrow> (error + LRESULT) \<times> 'u system"
  EnumChildWindows :: "HWND \<Rightarrow> HWND list"

definition SetWindowLongPtrW_DWLP_USER :: "HWND \<Rightarrow> 64 word \<Rightarrow> 'u system \<Rightarrow> 'u system" where
  "SetWindowLongPtrW_DWLP_USER w v s = s\<lparr>dwlp_user := (dwlp_user s)(w := v)\<rparr>"

definition GetWindowLongPtrW_DWLP_USER :: "HWND \<Rightarrow> 'u system \<Rightarrow> 64 word" where
  "GetWindowLongPtrW_DWLP_USER w s = dwlp_user s w"

text \<open>\<open>pSelf->\<close>: the object a \<open>base_dialog*\<close> points to, if it points to one.\<close>

definition deref :: "'u system \<Rightarrow> pointer \<Rightarrow> 'u base_dialog option" where
  "deref s pSelf = (if pSelf = 0 then None else dialogs s pSelf)"

text \<open>
  \<open>on_msg()\<close> returns \<open>msg_proxy_all&\<close>, a reference to the proxy inside the dialog
  object, which in turn refers to the stores of that object. With the objects in a store
  by address, the reference is the address of the object: \<open>on_msg_ref\<close> is \<open>on_msg()\<close>
  called on the object at \<open>this\<close>, and \<open>call_on_proxy\<close> is a registration method
  (\<open>msg_proxy::wm\<close> and the named ones) called through such a reference. The methods add
  to the stores and make no check of their own.
\<close>

definition on_msg_ref :: "pointer \<Rightarrow> 'u system \<Rightarrow> error + pointer" where
  "on_msg_ref this s =
     (case deref s this of
        None \<Rightarrow> Inl Invalid_Pointer
      | Some d \<Rightarrow> (case on_msg d of (Inl e, d') \<Rightarrow> Inl e | (Inr proxy, d') \<Rightarrow> Inr this))"

definition call_on_proxy ::
  "('u msg_proxy_all \<Rightarrow> 'u msg_proxy_all) \<Rightarrow> pointer \<Rightarrow> 'u system
     \<Rightarrow> (error + unit) \<times> 'u system" where
  "call_on_proxy method proxy_ref s =
     (case deref s proxy_ref of
        None \<Rightarrow> (Inl Invalid_Pointer, s)
      | Some d \<Rightarrow>
          (Inr (),
           s\<lparr>dialogs := (dialogs s)(proxy_ref \<mapsto> d\<lparr>msgHandler := method (msgHandler d)\<rparr>)\<rparr>))"

text \<open>
  \<open>_set_ui_font_on_children\<close>: \<open>WM_SETFONT\<close> to the dialog, then to each child.
  \<open>hfont\<close> is \<open>globalUiFont.hfont()\<close>, from \<open>gdi_obj.h\<close>, as a \<open>WPARAM\<close>.
\<close>

fun send_font_to_each ::
  "'u os \<Rightarrow> WPARAM \<Rightarrow> HWND list \<Rightarrow> 'u system \<Rightarrow> (error + unit) \<times> 'u system" where
  "send_font_to_each os hfont [] s = (Inr (), s)"
| "send_font_to_each os hfont (w # ws) s =
     (case SendMessageW os w WM_SETFONT hfont (MAKELPARAM 0 0) s of
        (Inl e, s') \<Rightarrow> (Inl e, s')
      | (Inr r, s') \<Rightarrow> send_font_to_each os hfont ws s')"

definition set_ui_font_on_children ::
  "'u os \<Rightarrow> WPARAM \<Rightarrow> HWND \<Rightarrow> 'u system \<Rightarrow> (error + unit) \<times> 'u system" where
  "set_ui_font_on_children os hfont hDlg s =
     (case SendMessageW os hDlg WM_SETFONT hfont (MAKELPARAM 0 0) s of
        (Inl e, s') \<Rightarrow> (Inl e, s')
      | (Inr r, s') \<Rightarrow> send_font_to_each os hfont (EnumChildWindows os hDlg) s')"

text \<open>
  \<open>_dialog_proc\<close>, first half: where \<open>pSelf\<close> comes from. \<open>WM_INITDIALOG\<close> brings it in
  \<open>lp\<close>; it is stored in the window, the fonts are set, and \<open>_hWnd\<close> of the object is
  set. Any other message reads it from the window.
\<close>

definition retrieve_self ::
  "'u os \<Rightarrow> WPARAM \<Rightarrow> HWND \<Rightarrow> UINT \<Rightarrow> LPARAM \<Rightarrow> 'u system \<Rightarrow> (error + pointer) \<times> 'u system" where
  "retrieve_self os hfont w msg lp s =
     (if msg = WM_INITDIALOG then
        (let pSelf = lp;
             s1 = SetWindowLongPtrW_DWLP_USER w pSelf s
         in case set_ui_font_on_children os hfont w s1 of
              (Inl e, s2) \<Rightarrow> (Inl e, s2)
            | (Inr u, s2) \<Rightarrow>
                (case deref s2 pSelf of
                   None \<Rightarrow> (Inl Invalid_Pointer, s2)
                 | Some d \<Rightarrow>
                     (Inr pSelf, s2\<lparr>dialogs := (dialogs s2)(pSelf \<mapsto> d\<lparr>hWnd := w\<rparr>)\<rparr>)))
      else (Inr (GetWindowLongPtrW_DWLP_USER w s), s))"

definition value_or :: "'a option \<Rightarrow> 'a \<Rightarrow> 'a" where
  "value_or opt dflt = (case opt of None \<Rightarrow> dflt | Some v \<Rightarrow> v)"

text \<open>\<open>_dialog_proc\<close>\<close>

definition dialog_proc ::
  "'u os \<Rightarrow> WPARAM \<Rightarrow> HWND \<Rightarrow> UINT \<Rightarrow> WPARAM \<Rightarrow> LPARAM \<Rightarrow> 'u system
     \<Rightarrow> (error + INT_PTR) \<times> 'u system" where
  "dialog_proc os hfont w msg wp lp s =
     (case retrieve_self os hfont w msg lp s of
        (Inl e, s') \<Rightarrow> (Inl e, s')
      | (Inr pSelf, s') \<Rightarrow>
          if pSelf = 0 then (Inr FALSE, s')
          else
            (case deref s' pSelf of
               None \<Rightarrow> (Inl Invalid_Pointer, s')
             | Some d \<Rightarrow>
                 (case exec (msgHandler d) msg wp lp (proc s') of
                    (Inl e, pr) \<Rightarrow> (Inl e, s'\<lparr>proc := pr\<rparr>)
                  | (Inr ret, pr) \<Rightarrow>
                      (let s2 = s'\<lparr>proc := pr\<rparr>;
                           s3 = (if msg = WM_NCDESTROY then
                                   (SetWindowLongPtrW_DWLP_USER w 0 s2)
                                     \<lparr>dialogs := (dialogs s2)(pSelf \<mapsto> d\<lparr>hWnd := 0\<rparr>)\<rparr>
                                 else s2)
                       in (Inr (value_or ret FALSE), s3)))))"

subsection \<open>ui_work.h\<close>

text \<open>
  \<open>ui_work::work\<close> on the window \<open>w\<close>. \<open>new std::function<void()>{...}\<close> puts the function
  into a cell that was free, at an address that is not null; \<open>pFunc\<close> is that address,
  the allocator's choice. \<open>send\<close> is \<open>SendMessageW\<close>.
\<close>

definition work ::
  "(HWND \<Rightarrow> UINT \<Rightarrow> WPARAM \<Rightarrow> LPARAM \<Rightarrow> 'u system \<Rightarrow> (error + LRESULT) \<times> 'u system)
     \<Rightarrow> HWND \<Rightarrow> pointer \<Rightarrow> ('u \<Rightarrow> (error + unit) \<times> 'u) \<Rightarrow> 'u system
     \<Rightarrow> (error + unit) \<times> 'u system" where
  "work send w pFunc func s =
     (let s1 = s\<lparr>proc := (proc s)\<lparr>funcs := (funcs (proc s))(pFunc \<mapsto> func)\<rparr>\<rparr>
      in case send w WM_UI_WORK_THREAD 0xc0def00d pFunc s1 of
           (Inl e, s2) \<Rightarrow> (Inl e, s2)
         | (Inr r, s2) \<Rightarrow> (Inr (), s2))"

subsection \<open>Example values\<close>

text \<open>
  An upper-casing for the Latin letters, handlers that return, count and throw, a message
  handler with a registration in each store, and a process state with one \<open>NMHDR\<close>.
\<close>

definition ascii_upper :: "wchar_t \<Rightarrow> wchar_t" where
  "ascii_upper c = (if 0x61 \<le> c \<and> c \<le> 0x7A then c - 0x20 else c)"

definition idle_process :: "nat process" where
  "idle_process = \<lparr>user = 0, funcs = Map.empty, nmhdrs = Map.empty, quit_posted = False\<rparr>"

definition answer_42 :: "nat handler" where
  "answer_42 p pr = (Inr 42, pr)"

definition failing_handler :: "nat handler" where
  "failing_handler p pr = (Inl User_Exception, pr\<lparr>user := 5\<rparr>)"

definition demo_handler :: "nat base_msg_handler" where
  "demo_handler =
     wm_notify (wm (wm (new_base_msg_handler True) WM_CLOSE answer_42) WM_CREATE failing_handler)
       5 (- 2) answer_42"

definition demo_process :: "nat process" where
  "demo_process =
     idle_process\<lparr>nmhdrs := [0x9000 \<mapsto> \<lparr>hwndFrom = 0x300, idFrom = 5, code = - 2\<rparr>]\<rparr>"

text \<open>
  A system for the dialog procedure: an operating system whose windows answer 0 to every
  message sent to them, one \<open>base_dialog\<close> object at address \<open>0x1000\<close>, before its
  window exists and after \<open>WM_INITDIALOG\<close> has reached the window \<open>0x2000\<close>, and two
  functions for \<open>ui_work::work\<close>.
\<close>

definition demo_os :: "nat os" where
  "demo_os = \<lparr>SendMessageW = (\<lambda>w msg wp lp s. (Inr 0, s)),
              EnumChildWindows = (\<lambda>w. [0x2001, 0x2002])\<rparr>"

definition demo_dialog :: "nat base_dialog" where
  "demo_dialog = \<lparr>hWnd = 0, msgHandler = demo_handler\<rparr>"

definition demo_system :: "nat system" where
  "demo_system = \<lparr>proc = demo_process, dialogs = [0x1000 \<mapsto> demo_dialog], dwlp_user = (\<lambda>w. 0)\<rparr>"

definition created_system :: "nat system" where
  "created_system =
     \<lparr>proc = demo_process,
      dialogs = [0x1000 \<mapsto> demo_dialog\<lparr>hWnd := 0x2000\<rparr>],
      dwlp_user = (\<lambda>w. 0)(0x2000 := 0x1000)\<rparr>"

definition add_ten :: "nat \<Rightarrow> (error + unit) \<times> nat" where
  "add_ten u = (Inr (), u + 10)"

definition always_throws :: "nat \<Rightarrow> (error + unit) \<times> nat" where
  "always_throws u = (Inl User_Exception, u)"

text \<open>
  A registration for \<open>WM_HELP\<close>, and the system after that registration has been made
  on the dialog object whose window exists.
\<close>

definition register_help :: "nat msg_proxy_all \<Rightarrow> nat msg_proxy_all" where
  "register_help proxy = wm proxy WM_HELP answer_42"

definition late_system :: "nat system" where
  "late_system =
     created_system\<lparr>dialogs :=
       [0x1000 \<mapsto> \<lparr>hWnd = 0x2000, msgHandler = wm demo_handler WM_HELP answer_42\<rparr>]\<rparr>"

section \<open>Properties\<close>

subsection \<open>insert_order_map\<close>

lemma find_idx_loop_absent:
  "k \<notin> key ` set es \<Longrightarrow> find_idx_loop es i k = - 1"
  by (induction es arbitrary: i) auto

lemma find_idx_loop_present:
  "k \<in> key ` set es \<Longrightarrow>
   \<exists>j < length es. find_idx_loop es i k = of_nat (i + j) \<and> key (es ! j) = k \<and>
     (\<forall>j' < j. key (es ! j') \<noteq> k)"
proof (induction es arbitrary: i)
  case Nil
  then show ?case by simp
next
  case (Cons e es)
  show ?case
  proof (cases "key e = k")
    case True
    then show ?thesis by (intro exI [of _ 0]) simp
  next
    case False
    with Cons.prems have "k \<in> key ` set es" by auto
    from Cons.IH [OF this, of "Suc i"] obtain j where j: "j < length es"
      "find_idx_loop es (Suc i) k = of_nat (Suc i + j)" "key (es ! j) = k"
      "\<forall>j' < j. key (es ! j') \<noteq> k" by blast
    have "\<forall>j' < Suc j. key ((e # es) ! j') \<noteq> k"
      using False j(4) by (auto simp: nth_Cons split: nat.splits)
    with j False show ?thesis by (intro exI [of _ "Suc j"]) simp
  qed
qed

lemma size_t_index:
  assumes "n < 2 ^ 64 - 1"
  shows "(of_nat n :: size_t) \<noteq> - 1" and "unat (of_nat n :: size_t) = n"
proof -
  from assms have lt: "n < 2 ^ 64" by simp
  show u: "unat (of_nat n :: size_t) = n"
    using lt by (simp add: unat_of_nat)
  have "unat (- 1 :: size_t) = 2 ^ 64 - 1"
    by (simp add: unsigned_minus_1_eq_mask mask_eq_exp_minus_1)
  with u assms show "(of_nat n :: size_t) \<noteq> - 1" by (metis nat_neq_iff)
qed

lemma find_idx_absent: "k \<notin> key ` set es \<Longrightarrow> find_idx es k = - 1"
  by (simp add: find_idx_def find_idx_loop_absent)

lemma find_idx_present:
  assumes "k \<in> key ` set es" and "fits_size_t es"
  shows "\<exists>j < length es. find_idx es k = of_nat j \<and> find_idx es k \<noteq> - 1 \<and>
           unat (find_idx es k) = j \<and> key (es ! j) = k \<and> (\<forall>j' < j. key (es ! j') \<noteq> k)"
proof -
  from find_idx_loop_present [OF assms(1), of 0] obtain j where j: "j < length es"
    "find_idx es k = of_nat j" "key (es ! j) = k" "\<forall>j' < j. key (es ! j') \<noteq> k"
    by (auto simp: find_idx_def)
  from j(1) assms(2) have "j < 2 ^ 64 - 1" by (simp add: fits_size_t_def)
  from size_t_index [OF this] j show ?thesis by auto
qed

lemma contains_iff: "fits_size_t es \<Longrightarrow> contains es k \<longleftrightarrow> k \<in> key ` set es"
  using find_idx_present [of k es] find_idx_absent [of k es]
  by (auto simp: contains_def)

lemma emplace_absent:
  "k \<notin> key ` set es \<Longrightarrow> emplace es k v = ((length es, True), es @ [\<lparr>key = k, val = v\<rparr>])"
  by (simp add: emplace_def find_idx_absent)

lemma emplace_present:
  assumes "k \<in> key ` set es" and "fits_size_t es"
  shows "\<exists>i < length es. key (es ! i) = k \<and> (\<forall>j < i. key (es ! j) \<noteq> k) \<and>
           emplace es k v = ((i, False), es)"
  using find_idx_present [OF assms] by (auto simp: emplace_def)

lemma subscript_absent:
  "k \<notin> key ` set es \<Longrightarrow>
   subscript init m es k =
     (length es, es @ [\<lparr>key = k, val = default_initialised init m\<rparr>])"
  by (simp add: subscript_def emplace_key_def find_idx_absent)

lemma subscript_present:
  assumes "k \<in> key ` set es" and "fits_size_t es"
  shows "\<exists>i < length es. key (es ! i) = k \<and> (\<forall>j < i. key (es ! j) \<noteq> k) \<and>
           subscript init m es k = (i, es)"
  using find_idx_present [OF assms] by (auto simp: subscript_def)

text \<open>
  C5. A map whose keys are pairwise different stays so under \<open>emplace\<close> and
  \<open>operator[]\<close>, and the empty map is one. \<open>emplace(key, val)\<close> with a key that no entry
  holds appends the entry at the back and returns the iterator to it (the last position)
  and \<open>true\<close>; with a key that an entry holds it returns the iterator to that entry and
  \<open>false\<close> and the entries are as before. \<open>operator[]\<close> with a key that no entry holds
  appends an entry with that key at the back and refers to its value: for a value type
  with a default constructor that value is the default-constructed one, for a scalar
  value type it is whatever the storage held. \<open>contains(key)\<close> is true exactly when some
  entry holds the key. Entries are only ever added at the back, so the order of the
  entries is the order of insertion.
\<close>

theorem insert_order_map_unique_keys_insertion_order:
  assumes "distinct (map key es)" and "fits_size_t es"
  shows "(k \<notin> key ` set es \<longrightarrow>
            emplace es k v = ((length es, True), es @ [\<lparr>key = k, val = v\<rparr>])) \<and>
         (k \<in> key ` set es \<longrightarrow>
            (\<exists>i < length es. key (es ! i) = k \<and> emplace es k v = ((i, False), es))) \<and>
         distinct (map key (snd (emplace es k v))) \<and>
         (k \<notin> key ` set es \<longrightarrow>
            subscript (Default_Constructed d) m es k =
              (length es, es @ [\<lparr>key = k, val = d\<rparr>]) \<and>
            val (snd (subscript (Default_Constructed d) m es k) !
                 fst (subscript (Default_Constructed d) m es k)) = d) \<and>
         (k \<notin> key ` set es \<longrightarrow>
            subscript Uninitialised m es k = (length es, es @ [\<lparr>key = k, val = m\<rparr>])) \<and>
         distinct (map key (snd (subscript init m es k))) \<and>
         (contains es k \<longleftrightarrow> (\<exists>e \<in> set es. key e = k)) \<and>
         distinct (map key ([] :: ('a, 'b) insert_order_map))"
proof (intro conjI impI)
  assume "k \<notin> key ` set es"
  then show "emplace es k v = ((length es, True), es @ [\<lparr>key = k, val = v\<rparr>])"
    by (rule emplace_absent)
next
  assume "k \<in> key ` set es"
  from emplace_present [OF this assms(2)]
  show "\<exists>i < length es. key (es ! i) = k \<and> emplace es k v = ((i, False), es)" by blast
next
  show "distinct (map key (snd (emplace es k v)))"
  proof (cases "k \<in> key ` set es")
    case True
    from emplace_present [OF this assms(2), of v] assms(1) show ?thesis by auto
  next
    case False
    with assms(1) show ?thesis by (simp add: emplace_absent)
  qed
next
  assume "k \<notin> key ` set es"
  then show "subscript (Default_Constructed d) m es k =
      (length es, es @ [\<lparr>key = k, val = d\<rparr>])"
    by (simp add: subscript_absent default_initialised_def)
next
  assume "k \<notin> key ` set es"
  then show "val (snd (subscript (Default_Constructed d) m es k) !
                  fst (subscript (Default_Constructed d) m es k)) = d"
    by (simp add: subscript_absent default_initialised_def)
next
  assume "k \<notin> key ` set es"
  then show "subscript Uninitialised m es k = (length es, es @ [\<lparr>key = k, val = m\<rparr>])"
    by (simp add: subscript_absent default_initialised_def)
next
  show "distinct (map key (snd (subscript init m es k)))"
  proof (cases "k \<in> key ` set es")
    case True
    from subscript_present [OF this assms(2), of init m] assms(1) show ?thesis by auto
  next
    case False
    with assms(1) show ?thesis by (simp add: subscript_absent)
  qed
next
  show "contains es k \<longleftrightarrow> (\<exists>e \<in> set es. key e = k)"
    using contains_iff [OF assms(2), of k] by auto
next
  show "distinct (map key ([] :: ('a, 'b) insert_order_map))" by simp
qed

text \<open>
  With a scalar value type the value that \<open>operator[]\<close> refers to after inserting is
  not the value-initialised one: here the storage held \<open>0xCDCDCDCD\<close>, and that, not 0,
  is the value of the new entry.
\<close>

theorem insert_order_map_subscript_scalar_uninitialised:
  "subscript Uninitialised (0xCDCDCDCD :: 32 word) [] (1 :: nat) =
     (0, [\<lparr>key = 1, val = 0xCDCDCDCD\<rparr>]) \<and>
   val (snd (subscript Uninitialised (0xCDCDCDCD :: 32 word) [] (1 :: nat)) !
        fst (subscript Uninitialised (0xCDCDCDCD :: 32 word) [] (1 :: nat))) \<noteq> 0"
  by (simp add: subscript_def emplace_key_def find_idx_def default_initialised_def)

theorem insert_order_map_unique_keys_insertion_order_witness:
  "distinct (map key [\<lparr>key = 1::nat, val = 10::nat\<rparr>, \<lparr>key = 2, val = 20\<rparr>]) \<and>
   fits_size_t [\<lparr>key = 1::nat, val = 10::nat\<rparr>, \<lparr>key = 2, val = 20\<rparr>] \<and>
   emplace [\<lparr>key = 1::nat, val = 10::nat\<rparr>, \<lparr>key = 2, val = 20\<rparr>] 3 30 =
     ((2, True), [\<lparr>key = 1, val = 10\<rparr>, \<lparr>key = 2, val = 20\<rparr>, \<lparr>key = 3, val = 30\<rparr>]) \<and>
   emplace [\<lparr>key = 1::nat, val = 10::nat\<rparr>, \<lparr>key = 2, val = 20\<rparr>] 2 30 =
     ((1, False), [\<lparr>key = 1, val = 10\<rparr>, \<lparr>key = 2, val = 20\<rparr>]) \<and>
   subscript (Default_Constructed 0) 77
       [\<lparr>key = 1::nat, val = 10::nat\<rparr>, \<lparr>key = 2, val = 20\<rparr>] 3 =
     (2, [\<lparr>key = 1, val = 10\<rparr>, \<lparr>key = 2, val = 20\<rparr>, \<lparr>key = 3, val = 0\<rparr>]) \<and>
   subscript Uninitialised 77
       [\<lparr>key = 1::nat, val = 10::nat\<rparr>, \<lparr>key = 2, val = 20\<rparr>] 3 =
     (2, [\<lparr>key = 1, val = 10\<rparr>, \<lparr>key = 2, val = 20\<rparr>, \<lparr>key = 3, val = 77\<rparr>]) \<and>
   contains [\<lparr>key = 1::nat, val = 10::nat\<rparr>, \<lparr>key = 2, val = 20\<rparr>] 2 \<and>
   \<not> contains [\<lparr>key = 1::nat, val = 10::nat\<rparr>, \<lparr>key = 2, val = 20\<rparr>] 3"
proof -
  let ?m = "[\<lparr>key = 1::nat, val = 10::nat\<rparr>, \<lparr>key = 2, val = 20\<rparr>]"
  have d: "distinct (map key ?m)" by simp
  have f: "fits_size_t ?m" by (simp add: fits_size_t_def)
  from insert_order_map_unique_keys_insertion_order
         [OF d f, where k = 3 and v = 30 and d = 0 and m = 77 and init = Uninitialised]
    insert_order_map_unique_keys_insertion_order
         [OF d f, where k = 2 and v = 30 and d = 0 and m = 77 and init = Uninitialised] d f
  show ?thesis by (auto simp: less_Suc_eq)
qed

subsection \<open>str::split\<close>

lemma find_in_Some:
  "find_in xs v p = Some q \<Longrightarrow>
   \<exists>n. q = p + n \<and> n \<le> length xs \<and> prefix v (drop n xs) \<and> (\<forall>m < n. \<not> prefix v (drop m xs))"
proof (induction xs arbitrary: p)
  case Nil
  then show ?case by (auto split: if_splits)
next
  case (Cons c cs)
  show ?case
  proof (cases "prefix v (c # cs)")
    case True
    with Cons.prems show ?thesis by (intro exI [of _ 0]) simp
  next
    case False
    with Cons.prems have "find_in cs v (Suc p) = Some q" by simp
    from Cons.IH [OF this] obtain n where n: "q = Suc p + n" "n \<le> length cs"
      "prefix v (drop n cs)" "\<forall>m < n. \<not> prefix v (drop m cs)" by blast
    have "\<forall>m < Suc n. \<not> prefix v (drop m (c # cs))"
      using False n(4) by (auto simp: less_Suc_eq_0_disj)
    with n show ?thesis by (intro exI [of _ "Suc n"]) simp
  qed
qed

lemma find_in_None:
  "find_in xs v p = None \<Longrightarrow> \<forall>m \<le> length xs. \<not> prefix v (drop m xs)"
proof (induction xs arbitrary: p)
  case Nil
  then show ?case by (auto split: if_splits)
next
  case (Cons c cs)
  then have a: "\<not> prefix v (c # cs)" and "find_in cs v (Suc p) = None"
    by (auto split: if_splits)
  from Cons.IH [OF this(2)] have b: "\<forall>m \<le> length cs. \<not> prefix v (drop m cs)" .
  show ?case
  proof (intro allI impI)
    fix m assume "m \<le> length (c # cs)"
    then show "\<not> prefix v (drop m (c # cs))"
      using a b by (cases m) auto
  qed
qed

lemma sublist_iff_prefix_drop:
  "sublist v xs \<longleftrightarrow> (\<exists>m \<le> length xs. prefix v (drop m xs))"
proof
  assume "sublist v xs"
  then obtain ps ss where "xs = ps @ v @ ss" by (auto simp: sublist_def)
  then have "length ps \<le> length xs" "prefix v (drop (length ps) xs)" by auto
  then show "\<exists>m \<le> length xs. prefix v (drop m xs)" by blast
next
  assume "\<exists>m \<le> length xs. prefix v (drop m xs)"
  then obtain m ss where "drop m xs = v @ ss" by (auto simp: prefix_def)
  then have "xs = take m xs @ v @ ss" by (metis append_take_drop_id)
  then show "sublist v xs" by (auto simp: sublist_def)
qed

lemma count_occurrences_none:
  "\<forall>m \<le> length x. \<not> prefix d (drop m x) \<Longrightarrow> count_occurrences x d = 0"
proof (induction x)
  case Nil
  then show ?case by (subst count_occurrences.simps) simp
next
  case (Cons c cs)
  from Cons.prems have a: "\<not> prefix d (c # cs)" by (auto dest: spec [of _ 0])
  have "\<forall>m \<le> length cs. \<not> prefix d (drop m cs)"
  proof (intro allI impI)
    fix m assume "m \<le> length cs"
    with Cons.prems have "\<not> prefix d (drop (Suc m) (c # cs))" by (auto simp del: drop_Suc_Cons)
    then show "\<not> prefix d (drop m cs)" by simp
  qed
  from Cons.IH [OF this] a show ?case by (subst count_occurrences.simps) simp
qed

lemma count_occurrences_first:
  assumes "d \<noteq> []"
  shows "n \<le> length x \<Longrightarrow> prefix d (drop n x) \<Longrightarrow> \<forall>m < n. \<not> prefix d (drop m x) \<Longrightarrow>
         count_occurrences x d = Suc (count_occurrences (drop (n + length d) x) d)"
proof (induction n arbitrary: x)
  case 0
  then have "prefix d x" by simp
  with assms have "x \<noteq> []" by auto
  with \<open>prefix d x\<close> assms show ?case by (subst count_occurrences.simps) simp
next
  case (Suc n)
  from Suc.prems(1) obtain c cs where x: "x = c # cs" by (cases x) auto
  from Suc.prems(3) have a: "\<not> prefix d x" by (auto dest: spec [of _ 0])
  have "\<forall>m < n. \<not> prefix d (drop m cs)"
  proof (intro allI impI)
    fix m assume "m < n"
    with Suc.prems(3) have "\<not> prefix d (drop (Suc m) x)" by blast
    then show "\<not> prefix d (drop m cs)" by (simp add: x)
  qed
  with Suc.prems x have "count_occurrences cs d = Suc (count_occurrences (drop (n + length d) cs) d)"
    by (intro Suc.IH) auto
  with a x assms show ?case by (subst count_occurrences.simps) simp
qed


lemma split_loop_pieces:
  assumes "d \<noteq> []"
  shows "base = head \<Longrightarrow> head \<le> length s \<Longrightarrow>
         \<exists>ps. split_loop s d base head ret = Inr (ret @ ps) \<and> ps \<noteq> [] \<and>
              join d ps = drop head s \<and>
              length ps = Suc (count_occurrences (drop head s) d) \<and>
              (\<forall>p \<in> set ps. \<not> sublist d p) \<and>
              (\<forall>p \<in> set (butlast ps). \<forall>m < length p. \<not> prefix d (drop m (p @ d)))"
  using assms
proof (induction s d base head ret rule: split_loop.induct)
  case (1 s d base head ret)
  let ?x = "drop head s"
  show ?case
  proof (cases "sv_find s d head")
    case None
    with "1.prems" have "find_in ?x d head = None" by (simp add: sv_find_def)
    from find_in_None [OF this] have no: "\<forall>m \<le> length ?x. \<not> prefix d (drop m ?x)" .
    have "split_loop s d base head ret = Inr (ret @ [?x])"
      using None "1.prems" by (subst split_loop.simps) (simp add: push_piece_def)
    moreover have "count_occurrences ?x d = 0" using no by (rule count_occurrences_none)
    moreover have "\<not> sublist d ?x" using no by (simp add: sublist_iff_prefix_drop)
    ultimately show ?thesis by simp
  next
    case (Some h)
    with "1.prems" have "find_in ?x d head = Some h" by (simp add: sv_find_def)
    from find_in_Some [OF this] obtain n where n: "h = head + n" "n \<le> length ?x"
      "prefix d (drop n ?x)" "\<forall>m < n. \<not> prefix d (drop m ?x)" by blast
    let ?p = "take n ?x"
    let ?h' = "h + length d"
    from n(3) obtain rest where rest: "drop n ?x = d @ rest" by (auto simp: prefix_def)
    then have rest_eq: "rest = drop ?h' s"
      by (metis n(1) add.commute append_eq_conv_conj drop_drop add.assoc)
    have x_eq: "?x = ?p @ d @ rest" using rest by (metis append_take_drop_id)
    have len: "?h' \<le> length s"
    proof -
      have "length (drop n ?x) = length d + length rest" using rest by simp
      then show ?thesis using n(1,2) "1.prems"(2) by simp
    qed
    have pp: "push_piece ret s base (h - base) = Inr (ret @ [?p])"
      using "1.prems" n(1) by (simp add: push_piece_def)
    from "1.IH" [OF "1.prems"(3) Some pp refl len "1.prems"(3)]
    obtain ps' where ps': "split_loop s d ?h' ?h' (ret @ [?p]) = Inr ((ret @ [?p]) @ ps')"
      "ps' \<noteq> []" "join d ps' = drop ?h' s"
      "length ps' = Suc (count_occurrences (drop ?h' s) d)"
      "\<forall>p \<in> set ps'. \<not> sublist d p"
      "\<forall>p \<in> set (butlast ps'). \<forall>m < length p. \<not> prefix d (drop m (p @ d))"
      by blast
    have run: "split_loop s d base head ret = Inr (ret @ ?p # ps')"
      using Some pp ps'(1) "1.prems"(3) by (subst split_loop.simps) simp
    have jn: "join d (?p # ps') = ?x"
      using ps'(2,3) x_eq rest_eq by (cases ps') auto
    have cnt: "count_occurrences ?x d = Suc (count_occurrences (drop ?h' s) d)"
      using count_occurrences_first [OF "1.prems"(3) n(2,3,4)] n(1)
      by (simp add: add.commute add.left_commute)
    have lenp: "length ?p = n" using n(2) by simp
    have first: "\<forall>m < length ?p. \<not> prefix d (drop m (?p @ d))"
    proof (intro allI impI)
      fix m assume m: "m < length ?p"
      with lenp n(4) have "\<not> prefix d (drop m ?x)" by simp
      moreover have "drop m ?x = drop m (?p @ d) @ rest"
        using m by (subst x_eq) simp
      ultimately show "\<not> prefix d (drop m (?p @ d))" by (metis prefix_prefix)
    qed
    have nosub: "\<not> sublist d ?p"
    proof
      assume "sublist d ?p"
      then obtain m where m: "m \<le> length ?p" "prefix d (drop m ?p)"
        by (auto simp: sublist_iff_prefix_drop)
      from m(2) "1.prems"(3) have "drop m ?p \<noteq> []" by auto
      then have "m < length ?p" by (meson drop_eq_Nil leI)
      moreover from m(2) have "prefix d (drop m (?p @ d))" using m(1) by (simp add: prefix_prefix)
      ultimately show False using first by blast
    qed
    from run jn cnt nosub first ps' show ?thesis by (intro exI [of _ "?p # ps'"]) auto
  qed
qed


text \<open>
  C7. For a non-empty string and a non-empty delimiter, \<open>split\<close> returns pieces that,
  written one after the other with the delimiter between neighbours, give the string
  back; there is one piece more than there are occurrences of the delimiter, counted from
  the left without overlap; no piece contains the delimiter, and the delimiter that
  follows a piece is the first occurrence after the piece's start. The split of the empty
  string is the empty vector, whatever the delimiter; a non-empty string with the empty
  delimiter gives the vector that holds just the string.
\<close>

theorem split_pieces_rebuild_string:
  "(s \<noteq> [] \<and> d \<noteq> [] \<longrightarrow>
      (\<exists>ps. split s d = Inr ps \<and> join d ps = s \<and>
            length ps = Suc (count_occurrences s d) \<and>
            (\<forall>p \<in> set ps. \<not> sublist d p) \<and>
            (\<forall>p \<in> set (butlast ps). \<forall>m < length p. \<not> prefix d (drop m (p @ d))))) \<and>
   split [] d = Inr [] \<and>
   (s \<noteq> [] \<longrightarrow> split s [] = Inr [s])"
proof (intro conjI impI)
  assume a: "s \<noteq> [] \<and> d \<noteq> []"
  then have "d \<noteq> []" by simp
  from split_loop_pieces [OF this, of 0 0 s "[]"]
  obtain ps where ps: "split_loop s d 0 0 [] = Inr ps" "join d ps = s"
    "length ps = Suc (count_occurrences s d)" "\<forall>p \<in> set ps. \<not> sublist d p"
    "\<forall>p \<in> set (butlast ps). \<forall>m < length p. \<not> prefix d (drop m (p @ d))"
    by auto
  from a ps(1) have "split s d = Inr ps" by (simp add: split_def)
  with ps(2-5)
  show "\<exists>ps. split s d = Inr ps \<and> join d ps = s \<and>
            length ps = Suc (count_occurrences s d) \<and>
            (\<forall>p \<in> set ps. \<not> sublist d p) \<and>
            (\<forall>p \<in> set (butlast ps). \<forall>m < length p. \<not> prefix d (drop m (p @ d)))"
    by blast
qed (simp_all add: split_def)

text \<open>
  With the string and the delimiter both empty, the result is the empty vector and not
  the vector that holds the empty string.
\<close>

theorem split_empty_string_empty_delimiter:
  "split [] [] = Inr [] \<and> split [] [] \<noteq> Inr [[]]"
  by (simp add: split_def)

theorem split_pieces_rebuild_string_witness:
  "split [0x61, 0x2C, 0x62, 0x2C, 0x2C, 0x63] [0x2C] = Inr [[0x61], [0x62], [], [0x63]] \<and>
   join [0x2C] [[0x61], [0x62], [], [0x63 :: wchar_t]] = [0x61, 0x2C, 0x62, 0x2C, 0x2C, 0x63] \<and>
   count_occurrences [0x61, 0x2C, 0x62, 0x2C, 0x2C, 0x63 :: wchar_t] [0x2C] = 3 \<and>
   split [0x61, 0x62] [] = Inr [[0x61, 0x62]]"
proof -
  have e: "split [0x61, 0x2C, 0x62, 0x2C, 0x2C, 0x63] [0x2C] = Inr [[0x61], [0x62], [], [0x63]]"
    by (simp add: split_def split_loop.simps sv_find_def push_piece_def)
  from split_pieces_rebuild_string [of "[0x61, 0x2C, 0x62, 0x2C, 0x2C, 0x63]" "[0x2C]"]
    split_pieces_rebuild_string [of "[0x61, 0x62]" "[]"] e
  show ?thesis by auto
qed

subsection \<open>str::guess_linebreak\<close>

text \<open>
  On a string that is not empty every read is inside the string.
\<close>

lemma guess_linebreak_loop_in_bounds:
  "Suc (unat lim) = length s \<Longrightarrow> \<forall>j \<in> set reads. j < length s \<Longrightarrow>
   snd (guess_linebreak_loop s lim i reads) \<noteq> Inl Out_Of_Bounds \<and>
   (\<forall>j \<in> set (fst (guess_linebreak_loop s lim i reads)). j < length s)"
proof (induction s lim i reads rule: guess_linebreak_loop.induct)
  case (1 s lim i reads)
  show ?case
  proof (cases "i < lim")
    case False
    with "1.prems" show ?thesis by (subst (1 2) guess_linebreak_loop.simps) simp
  next
    case True
    then have lt: "unat i < unat lim" by (simp add: word_less_nat_alt)
    have "unat lim < 2 ^ 64" using unsigned_less [of lim] by simp
    with lt have suc: "unat (i + 1) = Suc (unat i)" by (simp add: unat_word_ariths)
    from lt "1.prems"(1) have a0: "at s i = Some (s ! unat i)" by (simp add: at_def)
    from lt suc "1.prems"(1) have a1: "at s (i + 1) = Some (s ! Suc (unat i))"
      by (simp add: at_def)
    from lt suc "1.prems"(1) have b: "unat i < length s" "unat (i + 1) < length s" by simp_all
    show ?thesis
    proof (cases "s ! unat i = CR \<or> s ! unat i = LF")
      case True
      with \<open>i < lim\<close> a0 a1 b "1.prems"(2) show ?thesis
        by (subst (1 2) guess_linebreak_loop.simps) auto
    next
      case False
      have "\<forall>j \<in> set (reads @ [unat i]). j < length s" using b "1.prems"(2) by simp
      from "1.IH" [OF \<open>i < lim\<close> a0 _ _ "1.prems"(1) this] False
      have "snd (guess_linebreak_loop s lim (i + 1) (reads @ [unat i])) \<noteq> Inl Out_Of_Bounds \<and>
        (\<forall>j \<in> set (fst (guess_linebreak_loop s lim (i + 1) (reads @ [unat i]))). j < length s)"
        by simp
      with False \<open>i < lim\<close> a0 show ?thesis
        by (subst (1 2) guess_linebreak_loop.simps) simp
    qed
  qed
qed

lemma guess_linebreak_in_bounds:
  assumes "s \<noteq> []" and "length s < 2 ^ 64"
  shows "snd (guess_linebreak s) \<noteq> Inl Out_Of_Bounds \<and>
         (\<forall>j \<in> set (fst (guess_linebreak s)). j < length s)"
proof -
  from assms(1) obtain n where n: "length s = Suc n" by (cases s) auto
  with assms(2) have "n < 2 ^ 64" by simp
  then have "unat (of_nat n :: size_t) = n" by (simp add: unat_of_nat)
  moreover have "(of_nat (length s) - 1 :: size_t) = of_nat n" by (simp add: n)
  ultimately have "Suc (unat (of_nat (length s) - 1 :: size_t)) = length s" by (simp add: n)
  from guess_linebreak_loop_in_bounds [OF this, of "[]" 0] show ?thesis
    by (simp add: guess_linebreak_def)
qed

text \<open>
  C8. On the empty string the bound \<open>s.length() - 1\<close> wraps around to the largest
  \<open>size_t\<close>, the loop is entered and reads index 0 of a string of length 0. On the
  string that is a single line feed the bound is 0, nothing is read, and the result is
  \<open>nullptr\<close> although the string holds a linebreak.
\<close>

theorem guess_linebreak_reads_past_empty_string:
  "guess_linebreak [] = ([0], Inl Out_Of_Bounds) \<and> guess_linebreak [LF] = ([], Inr None)"
proof
  have "guess_linebreak_loop [] (- 1) 0 [] = ([0], Inl Out_Of_Bounds)"
    by (subst guess_linebreak_loop.simps) (simp add: at_def word_gt_0)
  then show "guess_linebreak [] = ([0], Inl Out_Of_Bounds)"
    by (simp add: guess_linebreak_def)
  have "guess_linebreak_loop [LF] 0 0 [] = ([], Inr None)"
    by (subst guess_linebreak_loop.simps) simp
  then show "guess_linebreak [LF] = ([], Inr None)"
    by (simp add: guess_linebreak_def)
qed

subsection \<open>accel_table\<close>

text \<open>
  C9. While no table has been built, \<open>add_char\<close> appends one entry: the given
  modifiers, the upper-cased character as the key, and the command ID (cut to a
  \<open>WORD\<close>, as the \<open>ACCEL\<close> structure has it). Once \<open>haccel()\<close> has returned the handle
  of a built table, \<open>add_char\<close> and \<open>add_key\<close> throw \<open>std::logic_error\<close> and the table
  is as it was before the call.
\<close>

theorem accel_table_add_char_then_frozen:
  "(hAccel t = 0 \<longrightarrow>
      add_char up ch m c t =
        (Inr (), t\<lparr>accels := accels t @
                     [\<lparr>accel_fVirt = m, accel_key = up ch, accel_cmd = ucast c\<rparr>]\<rparr>)) \<and>
   (haccel create t = (Inr h, t') \<and> h \<noteq> 0 \<longrightarrow>
      add_char up ch m c t' = (Inl Logic_Error, t') \<and>
      add_key vk m c t' = (Inl Logic_Error, t'))"
  by (auto simp: add_char_def add_key_def haccel_def build_def Let_def split: if_splits)

theorem accel_table_add_char_then_frozen_witness:
  "hAccel new_accel_table = 0 \<and>
   add_char ascii_upper 0x61 CTRL 100 new_accel_table =
     (Inr (), \<lparr>accels = [\<lparr>accel_fVirt = 9, accel_key = 0x41, accel_cmd = 100\<rparr>], hAccel = 0\<rparr>) \<and>
   haccel (\<lambda>a. 0x5000) \<lparr>accels = [\<lparr>accel_fVirt = 9, accel_key = 0x41, accel_cmd = 100\<rparr>], hAccel = 0\<rparr>
     = (Inr 0x5000, \<lparr>accels = [], hAccel = 0x5000\<rparr>) \<and>
   add_char ascii_upper 0x62 SHIFT 101 \<lparr>accels = [], hAccel = 0x5000\<rparr> =
     (Inl Logic_Error, \<lparr>accels = [], hAccel = 0x5000\<rparr>) \<and>
   add_key 0x70 NONE 102 \<lparr>accels = [], hAccel = 0x5000\<rparr> =
     (Inl Logic_Error, \<lparr>accels = [], hAccel = 0x5000\<rparr>)"
proof -
  have b: "haccel (\<lambda>a. 0x5000)
             \<lparr>accels = [\<lparr>accel_fVirt = 9, accel_key = 0x41, accel_cmd = 100\<rparr>], hAccel = 0\<rparr>
           = (Inr 0x5000, \<lparr>accels = [], hAccel = 0x5000\<rparr>) \<and> (0x5000 :: pointer) \<noteq> 0"
    by (simp add: haccel_def build_def)
  have n: "hAccel new_accel_table = 0" by (simp add: new_accel_table_def)
  from accel_table_add_char_then_frozen
      [where t = new_accel_table and up = ascii_upper and ch = "0x61" and m = CTRL and c = 100]
    accel_table_add_char_then_frozen
      [where create = "\<lambda>a. 0x5000" and h = "0x5000" and t' = "\<lparr>accels = [], hAccel = 0x5000\<rparr>"
         and up = ascii_upper and ch = "0x62" and m = SHIFT and c = 101]
    accel_table_add_char_then_frozen
      [where create = "\<lambda>a. 0x5000" and h = "0x5000" and t' = "\<lparr>accels = [], hAccel = 0x5000\<rparr>"
         and vk = "0x70" and m = NONE and c = 102]
    b n
  show ?thesis
    by (simp add: new_accel_table_def ascii_upper_def CTRL_def FVIRTKEY_def FCONTROL_def)
qed

subsection \<open>base_msg_handler::exec\<close>

lemma demo_search:
  "search_handler demo_handler WM_CLOSE 0 0 demo_process = Inr (Some answer_42)"
  "search_handler demo_handler WM_CREATE 0 0 demo_process = Inr (Some failing_handler)"
  "search_handler demo_handler WM_NOTIFY 5 0x9000 demo_process = Inr (Some answer_42)"
  "search_handler demo_handler WM_COMMAND 0x10007 0 demo_process = Inr None"
  "search_handler demo_handler WM_HELP 0 0 demo_process = Inr None"
  by (simp_all add: demo_handler_def demo_process_def idle_process_def search_handler_def
        store_find_def store_add_def wm_notify_def wm_def new_base_msg_handler_def
        default_msg_handlers_def WM_COMMAND_def WM_NOTIFY_def WM_CLOSE_def WM_CREATE_def
        WM_HELP_def WM_UI_WORK_THREAD_def WM_APP_def LOWORD_def)

text \<open>
  C1. \<open>exec\<close> looks the handler up in the command store under \<open>LOWORD(wparam)\<close> for
  \<open>WM_COMMAND\<close>, in the notification store under the pair of \<open>idFrom\<close> and \<open>code\<close> of
  the \<open>NMHDR\<close> that \<open>lparam\<close> points to for \<open>WM_NOTIFY\<close>, and in the message store under
  the message itself otherwise. When a handler is found and returns a value, \<open>exec\<close>
  returns that value in an optional; when none is found it returns the empty optional
  and changes nothing. A key has a handler exactly when a registration under it is in
  the store.
\<close>

theorem exec_lookup_key:
  "(msg = WM_COMMAND \<longrightarrow>
      search_handler h msg wp lp p = Inr (store_find (cmds h) (LOWORD wp))) \<and>
   (msg = WM_NOTIFY \<and> nmhdrs p lp = Some nmhdr \<longrightarrow>
      search_handler h msg wp lp p = Inr (store_find (nfys h) (idFrom nmhdr, code nmhdr))) \<and>
   (msg \<noteq> WM_COMMAND \<and> msg \<noteq> WM_NOTIFY \<longrightarrow>
      search_handler h msg wp lp p = Inr (store_find (msgs h) msg)) \<and>
   (search_handler h msg wp lp p = Inr (Some userFunc) \<and>
    userFunc \<lparr>wparam = wp, lparam = lp\<rparr> p = (Inr r, p') \<longrightarrow>
      exec h msg wp lp p = (Inr (Some r), p')) \<and>
   (search_handler h msg wp lp p = Inr None \<longrightarrow> exec h msg wp lp p = (Inr None, p)) \<and>
   (store_find st k = None \<longleftrightarrow> (\<forall>f. (k, f) \<notin> set st)) \<and>
   (store_find st k = Some func \<longrightarrow> (k, func) \<in> set st)"
  apply (auto simp: search_handler_def exec_def catch_all_excps_def WM_COMMAND_def WM_NOTIFY_def store_find_def map_of_eq_None_iff
       dest!: map_of_SomeD)
  apply force
  done

theorem exec_lookup_key_witness:
  "exec demo_handler WM_CLOSE 0 0 demo_process = (Inr (Some 42), demo_process) \<and>
   exec demo_handler WM_NOTIFY 5 0x9000 demo_process = (Inr (Some 42), demo_process) \<and>
   exec demo_handler WM_COMMAND 0x10007 0 demo_process = (Inr None, demo_process) \<and>
   search_handler demo_handler WM_COMMAND 0x10007 0 demo_process =
     Inr (store_find (cmds demo_handler) (LOWORD 0x10007)) \<and>
   search_handler demo_handler WM_NOTIFY 5 0x9000 demo_process =
     Inr (store_find (nfys demo_handler) (5, - 2)) \<and>
   search_handler demo_handler WM_CLOSE 0 0 demo_process =
     Inr (store_find (msgs demo_handler) WM_CLOSE)"
proof (intro conjI)
  note found = exec_lookup_key [THEN conjunct2, THEN conjunct2, THEN conjunct2, THEN conjunct1, THEN mp]
  note absent = exec_lookup_key [THEN conjunct2, THEN conjunct2, THEN conjunct2, THEN conjunct2, THEN conjunct1, THEN mp]
  show "exec demo_handler WM_CLOSE 0 0 demo_process = (Inr (Some 42), demo_process)"
    by (rule found, rule conjI, rule demo_search) (simp add: answer_42_def)
  show "exec demo_handler WM_NOTIFY 5 0x9000 demo_process = (Inr (Some 42), demo_process)"
    by (rule found, rule conjI, rule demo_search) (simp add: answer_42_def)
  show "exec demo_handler WM_COMMAND 0x10007 0 demo_process = (Inr None, demo_process)"
    by (rule absent) (rule demo_search)
  show "search_handler demo_handler WM_COMMAND 0x10007 0 demo_process =
     Inr (store_find (cmds demo_handler) (LOWORD 0x10007))"
    by (rule exec_lookup_key [THEN conjunct1, THEN mp]) simp
  have n: "nmhdrs demo_process 0x9000 = Some \<lparr>hwndFrom = 0x300, idFrom = 5, code = - 2\<rparr>"
    by (simp add: demo_process_def)
  from exec_lookup_key [where msg = WM_NOTIFY and p = demo_process and lp = "0x9000"
         and nmhdr = "\<lparr>hwndFrom = 0x300, idFrom = 5, code = - 2\<rparr>"
         and h = demo_handler and wp = 5, THEN conjunct2, THEN conjunct1, THEN mp, OF conjI, OF refl n]
  show "search_handler demo_handler WM_NOTIFY 5 0x9000 demo_process =
     Inr (store_find (nfys demo_handler) (5, - 2))" by simp
  show "search_handler demo_handler WM_CLOSE 0 0 demo_process =
     Inr (store_find (msgs demo_handler) WM_CLOSE)"
    by (rule exec_lookup_key [THEN conjunct2, THEN conjunct2, THEN conjunct1, THEN mp])
       (simp add: WM_CLOSE_def WM_COMMAND_def WM_NOTIFY_def)
qed

text \<open>
  C6. When the handler that \<open>exec\<close> found ends with an exception, \<open>exec\<close> itself ends
  normally: it returns the optional that holds 0, the initial value of \<open>retVal\<close>, and a
  quit message has been posted.
\<close>

theorem exec_catches_handler_exception:
  "search_handler h msg wp lp p = Inr (Some userFunc) \<and>
   userFunc \<lparr>wparam = wp, lparam = lp\<rparr> p = (Inl e, p') \<and> is_exception e \<longrightarrow>
     exec h msg wp lp p = (Inr (Some 0), p'\<lparr>quit_posted := True\<rparr>)"
  by (simp add: exec_def catch_all_excps_def)

theorem exec_catches_handler_exception_witness:
  "exec demo_handler WM_CREATE 0 0 demo_process =
     (Inr (Some 0), demo_process\<lparr>user := 5, quit_posted := True\<rparr>)"
proof -
  have "search_handler demo_handler WM_CREATE 0 0 demo_process = Inr (Some failing_handler) \<and>
        failing_handler \<lparr>wparam = 0, lparam = 0\<rparr> demo_process
          = (Inl User_Exception, demo_process\<lparr>user := 5\<rparr>) \<and>
        is_exception User_Exception"
    by (simp add: demo_search failing_handler_def)
  from exec_catches_handler_exception [THEN mp, OF this] show ?thesis by simp
qed

subsection \<open>base_dialog: the dialog procedure\<close>


lemma exec_not_found:
  "search_handler h msg wp lp p = Inr None \<Longrightarrow> exec h msg wp lp p = (Inr None, p)"
  by (simp add: exec_def)

lemma exec_found_returns:
  "search_handler h msg wp lp p = Inr (Some f) \<Longrightarrow> f \<lparr>wparam = wp, lparam = lp\<rparr> p = (Inr r, p') \<Longrightarrow>
   exec h msg wp lp p = (Inr (Some r), p')"
  by (simp add: exec_def catch_all_excps_def)

lemma deref_Some_nonnull: "deref s pSelf = Some d \<Longrightarrow> pSelf \<noteq> 0"
  by (auto simp: deref_def split: if_splits)


lemma demo_retrieve:
  "retrieve_self demo_os 0 0x2000 WM_INITDIALOG 0x1000 demo_system = (Inr 0x1000, created_system)"
  by (simp add: retrieve_self_def set_ui_font_on_children_def demo_os_def demo_system_def
        created_system_def SetWindowLongPtrW_DWLP_USER_def deref_def demo_dialog_def)

lemma demo_deref:
  "deref created_system 0x1000 = Some (demo_dialog\<lparr>hWnd := 0x2000\<rparr>)"
  "dwlp_user created_system 0x2000 = 0x1000"
  "proc created_system = demo_process"
  "msgHandler (demo_dialog\<lparr>hWnd := 0x2000\<rparr>) = demo_handler"
  "dwlp_user demo_system 0x2000 = 0"
  by (simp_all add: created_system_def demo_system_def deref_def demo_dialog_def)






text \<open>
  C10. \<open>on_msg()\<close> on a dialog whose stored \<open>HWND\<close> is not null throws
  \<open>std::logic_error\<close>, and the dialog with its handler stores is as before; a
  registration written \<open>on_msg().method(...)\<close> fails the same way. While the stored
  \<open>HWND\<close> is null, \<open>on_msg()\<close> returns the proxy and the registration is made. The stored
  \<open>HWND\<close> is the window's once \<open>WM_INITDIALOG\<close> has set it.
\<close>

theorem base_dialog_on_msg_guard:
  "(hWnd d \<noteq> 0 \<longrightarrow>
      on_msg d = (Inl Logic_Error, d) \<and> on_msg_register method d = (Inl Logic_Error, d)) \<and>
   (hWnd d = 0 \<longrightarrow>
      on_msg d = (Inr (msgHandler d), d) \<and>
      on_msg_register method d = (Inr (), d\<lparr>msgHandler := method (msgHandler d)\<rparr>)) \<and>
   (retrieve_self os hfont w WM_INITDIALOG lp s = (Inr pSelf, s') \<longrightarrow>
      (\<exists>d'. dialogs s' lp = Some d' \<and> hWnd d' = w))"
  by (auto simp: on_msg_def on_msg_register_def retrieve_self_def Let_def
           split: prod.splits sum.splits option.splits)

theorem base_dialog_on_msg_guard_witness:
  "on_msg (demo_dialog\<lparr>hWnd := 0x2000\<rparr>) = (Inl Logic_Error, demo_dialog\<lparr>hWnd := 0x2000\<rparr>) \<and>
   on_msg_register (\<lambda>proxy. wm proxy WM_HELP answer_42) (demo_dialog\<lparr>hWnd := 0x2000\<rparr>) =
     (Inl Logic_Error, demo_dialog\<lparr>hWnd := 0x2000\<rparr>) \<and>
   on_msg demo_dialog = (Inr demo_handler, demo_dialog) \<and>
   on_msg_register (\<lambda>proxy. wm proxy WM_HELP answer_42) demo_dialog =
     (Inr (), demo_dialog\<lparr>msgHandler := wm demo_handler WM_HELP answer_42\<rparr>) \<and>
   (\<exists>d'. dialogs created_system 0x1000 = Some d' \<and> hWnd d' = 0x2000)"
proof -
  note T = base_dialog_on_msg_guard
  have a: "hWnd (demo_dialog\<lparr>hWnd := 0x2000\<rparr>) \<noteq> 0" by simp
  have b: "hWnd demo_dialog = 0" "msgHandler demo_dialog = demo_handler"
    by (simp_all add: demo_dialog_def)
  from T [THEN conjunct1, THEN mp, OF a, of "\<lambda>proxy. wm proxy WM_HELP answer_42"]
    T [THEN conjunct2, THEN conjunct1, THEN mp, OF b(1), of "\<lambda>proxy. wm proxy WM_HELP answer_42"]
    T [THEN conjunct2, THEN conjunct2, THEN mp, OF demo_retrieve]
  show ?thesis by (simp add: b)
qed

text \<open>
  A registration can be made while the window exists. The reference that \<open>on_msg()\<close>
  returned before \<open>WM_INITDIALOG\<close> still refers to the stores afterwards: \<open>on_msg()\<close>
  itself now throws, but \<open>wm\<close> called on the kept reference adds the handler, and the
  dialog procedure, which answered \<open>WM_HELP\<close> with \<open>FALSE\<close> before, answers with the
  new handler's 42.
\<close>

theorem kept_proxy_registers_after_creation:
  "on_msg_ref 0x1000 demo_system = Inr 0x1000 \<and>
   retrieve_self demo_os 0 0x2000 WM_INITDIALOG 0x1000 demo_system = (Inr 0x1000, created_system) \<and>
   deref created_system 0x1000 = Some (demo_dialog\<lparr>hWnd := 0x2000\<rparr>) \<and>
   on_msg_ref 0x1000 created_system = Inl Logic_Error \<and>
   call_on_proxy register_help 0x1000 created_system =
     (Inr (), late_system) \<and>
   fst (dialog_proc demo_os 0 0x2000 WM_HELP 0 0 created_system) = Inr FALSE \<and>
   fst (dialog_proc demo_os 0 0x2000 WM_HELP 0 0 late_system) = Inr 42"
proof (intro conjI)
  show "on_msg_ref 0x1000 demo_system = Inr 0x1000"
    by (simp add: on_msg_ref_def on_msg_def deref_def demo_system_def demo_dialog_def)
  show "retrieve_self demo_os 0 0x2000 WM_INITDIALOG 0x1000 demo_system
          = (Inr 0x1000, created_system)"
    by (rule demo_retrieve)
  show "deref created_system 0x1000 = Some (demo_dialog\<lparr>hWnd := 0x2000\<rparr>)"
    by (rule demo_deref)
  show "on_msg_ref 0x1000 created_system = Inl Logic_Error"
    by (simp add: on_msg_ref_def on_msg_def demo_deref)
  show "call_on_proxy register_help 0x1000 created_system =
     (Inr (), late_system)"
    by (simp add: call_on_proxy_def deref_def late_system_def created_system_def demo_dialog_def
          register_help_def)
  have h: "WM_HELP \<noteq> WM_INITDIALOG" "WM_HELP \<noteq> WM_NCDESTROY"
    by (simp_all add: WM_HELP_def WM_INITDIALOG_def WM_NCDESTROY_def)
  show "fst (dialog_proc demo_os 0 0x2000 WM_HELP 0 0 created_system) = Inr FALSE"
    by (simp add: dialog_proc_def retrieve_self_def GetWindowLongPtrW_DWLP_USER_def h
          demo_deref demo_search exec_not_found value_or_def)
  have l: "dwlp_user late_system 0x2000 = 0x1000"
    "deref late_system 0x1000 = Some \<lparr>hWnd = 0x2000, msgHandler = wm demo_handler WM_HELP answer_42\<rparr>"
    "proc late_system = demo_process"
    by (simp_all add: late_system_def created_system_def deref_def)
  have s: "search_handler (wm demo_handler WM_HELP answer_42) WM_HELP 0 0 demo_process
             = Inr (Some answer_42)"
    by (simp add: search_handler_def wm_def store_add_def store_find_def WM_HELP_def
          WM_COMMAND_def WM_NOTIFY_def)
  have e: "exec (wm demo_handler WM_HELP answer_42) WM_HELP 0 0 demo_process
             = (Inr (Some 42), demo_process)"
    by (rule exec_found_returns [OF s]) (simp add: answer_42_def)
  show "fst (dialog_proc demo_os 0 0x2000 WM_HELP 0 0 late_system) = Inr 42"
    by (simp add: dialog_proc_def retrieve_self_def GetWindowLongPtrW_DWLP_USER_def h l e
          value_or_def)
qed

subsection \<open>ui_work and the default handler\<close>

lemma handler_runs_function:
  assumes "lp \<noteq> 0" and "funcs pr lp = Some f" and "f (user pr) = (Inr (), u')"
  shows "ui_work_thread_handler \<lparr>wparam = 0xc0def00d, lparam = lp\<rparr> pr =
           (Inr 0, pr\<lparr>user := u', funcs := (funcs pr)(lp := None)\<rparr>)"
  using assms by (simp add: ui_work_thread_handler_def catch_all_excps_def)

lemma handler_ignores_other:
  "wp \<noteq> 0xc0def00d \<or> lp = 0 \<Longrightarrow>
   ui_work_thread_handler \<lparr>wparam = wp, lparam = lp\<rparr> pr = (Inr 0, pr)"
  by (auto simp: ui_work_thread_handler_def)

lemma WM_UI_WORK_THREAD_neq:
  "WM_UI_WORK_THREAD \<noteq> WM_INITDIALOG" "WM_UI_WORK_THREAD \<noteq> WM_COMMAND"
  "WM_UI_WORK_THREAD \<noteq> WM_NOTIFY" "WM_UI_WORK_THREAD \<noteq> WM_NCDESTROY"
  by (simp_all add: WM_UI_WORK_THREAD_def WM_APP_def WM_INITDIALOG_def WM_COMMAND_def
        WM_NOTIFY_def WM_NCDESTROY_def)

text \<open>
  C3. \<open>work\<close> puts the function into a heap cell and sends \<open>WM_UI_WORK_THREAD\<close>, which is
  \<open>WM_APP + 0x3fff\<close>, with \<open>wparam\<close> \<open>0xc0def00d\<close> and the cell's address as \<open>lparam\<close>. A new
  \<open>base_msg_handler\<close> has \<open>ui_work_thread_handler\<close> registered for that message. The
  handler runs the function it finds at \<open>lparam\<close>, frees the cell and returns 0, also when
  the function throws; with another \<open>wparam\<close> or a null \<open>lparam\<close> it returns 0 and changes
  nothing. Sent to the window of a dialog whose handler for the message is the default
  one, \<open>work\<close> ends with the function's effect made and the cell free again.
\<close>

theorem ui_work_runs_function_on_target:
  "WM_UI_WORK_THREAD = WM_APP + 0x3fff \<and>
   work send w pFunc func s =
     (case send w WM_UI_WORK_THREAD 0xc0def00d pFunc
             (s\<lparr>proc := (proc s)\<lparr>funcs := (funcs (proc s))(pFunc \<mapsto> func)\<rparr>\<rparr>) of
        (Inl e, s2) \<Rightarrow> (Inl e, s2)
      | (Inr r, s2) \<Rightarrow> (Inr (), s2)) \<and>
   store_find (msgs (new_base_msg_handler isDlg :: 'u base_msg_handler)) WM_UI_WORK_THREAD =
     Some ui_work_thread_handler \<and>
   (lp \<noteq> 0 \<and> funcs pr lp = Some f \<and> f (user pr) = (Inr (), u') \<longrightarrow>
      ui_work_thread_handler \<lparr>wparam = 0xc0def00d, lparam = lp\<rparr> pr =
        (Inr 0, pr\<lparr>user := u', funcs := (funcs pr)(lp := None)\<rparr>)) \<and>
   (lp \<noteq> 0 \<and> funcs pr lp = Some f \<and> f (user pr) = (Inl x, u') \<and> is_exception x \<longrightarrow>
      ui_work_thread_handler \<lparr>wparam = 0xc0def00d, lparam = lp\<rparr> pr =
        (Inr 0, pr\<lparr>user := u', quit_posted := True, funcs := (funcs pr)(lp := None)\<rparr>)) \<and>
   (wp \<noteq> 0xc0def00d \<or> lp = 0 \<longrightarrow>
      ui_work_thread_handler \<lparr>wparam = wp, lparam = lp\<rparr> pr = (Inr 0, pr)) \<and>
   (pFunc \<noteq> 0 \<and> deref s (dwlp_user s w) = Some d \<and>
    store_find (msgs (msgHandler d)) WM_UI_WORK_THREAD = Some ui_work_thread_handler \<and>
    func (user (proc s)) = (Inr (), u'') \<longrightarrow>
      work (dialog_proc os hfont) w pFunc func s =
        (Inr (), s\<lparr>proc := (proc s)\<lparr>user := u'', funcs := (funcs (proc s))(pFunc := None)\<rparr>\<rparr>))"
proof (intro conjI impI)
  show "WM_UI_WORK_THREAD = WM_APP + 0x3fff" by (simp add: WM_UI_WORK_THREAD_def)
  show "work send w pFunc func s =
     (case send w WM_UI_WORK_THREAD 0xc0def00d pFunc
             (s\<lparr>proc := (proc s)\<lparr>funcs := (funcs (proc s))(pFunc \<mapsto> func)\<rparr>\<rparr>) of
        (Inl e, s2) \<Rightarrow> (Inl e, s2)
      | (Inr r, s2) \<Rightarrow> (Inr (), s2))"
    by (simp add: work_def)
  show "store_find (msgs (new_base_msg_handler isDlg :: 'u base_msg_handler)) WM_UI_WORK_THREAD =
     Some ui_work_thread_handler"
    by (simp add: new_base_msg_handler_def default_msg_handlers_def wm_def store_add_def
          store_find_def)
next
  assume "lp \<noteq> 0 \<and> funcs pr lp = Some f \<and> f (user pr) = (Inr (), u')"
  then show "ui_work_thread_handler \<lparr>wparam = 0xc0def00d, lparam = lp\<rparr> pr =
        (Inr 0, pr\<lparr>user := u', funcs := (funcs pr)(lp := None)\<rparr>)"
    by (simp add: handler_runs_function)
next
  assume "lp \<noteq> 0 \<and> funcs pr lp = Some f \<and> f (user pr) = (Inl x, u') \<and> is_exception x"
  then show "ui_work_thread_handler \<lparr>wparam = 0xc0def00d, lparam = lp\<rparr> pr =
        (Inr 0, pr\<lparr>user := u', quit_posted := True, funcs := (funcs pr)(lp := None)\<rparr>)"
    by (simp add: ui_work_thread_handler_def catch_all_excps_def)
next
  assume "wp \<noteq> 0xc0def00d \<or> lp = 0"
  then show "ui_work_thread_handler \<lparr>wparam = wp, lparam = lp\<rparr> pr = (Inr 0, pr)"
    by (rule handler_ignores_other)
next
  assume a: "pFunc \<noteq> 0 \<and> deref s (dwlp_user s w) = Some d \<and>
    store_find (msgs (msgHandler d)) WM_UI_WORK_THREAD = Some ui_work_thread_handler \<and>
    func (user (proc s)) = (Inr (), u'')"
  let ?pr1 = "(proc s)\<lparr>funcs := (funcs (proc s))(pFunc \<mapsto> func)\<rparr>"
  let ?s1 = "s\<lparr>proc := ?pr1\<rparr>"
  from a have nz: "dwlp_user s w \<noteq> 0" by (auto dest: deref_Some_nonnull)
  have d1: "deref ?s1 (dwlp_user s w) = Some d"
    using a by (auto simp: deref_def split: if_splits)
  have sh: "search_handler (msgHandler d) WM_UI_WORK_THREAD 0xc0def00d pFunc ?pr1 =
              Inr (Some ui_work_thread_handler)"
    using a by (simp add: search_handler_def WM_UI_WORK_THREAD_neq)
  have run: "ui_work_thread_handler \<lparr>wparam = 0xc0def00d, lparam = pFunc\<rparr> ?pr1 =
               (Inr 0, ?pr1\<lparr>user := u'', funcs := (funcs ?pr1)(pFunc := None)\<rparr>)"
    using a handler_runs_function [where f = func and pr = ?pr1 and lp = pFunc and u' = u'']
    by simp
  have ex: "exec (msgHandler d) WM_UI_WORK_THREAD 0xc0def00d pFunc ?pr1 =
              (Inr (Some 0), ?pr1\<lparr>user := u'', funcs := (funcs ?pr1)(pFunc := None)\<rparr>)"
    by (rule exec_found_returns [OF sh run])
  have "dialog_proc os hfont w WM_UI_WORK_THREAD 0xc0def00d pFunc ?s1 =
          (Inr 0, ?s1\<lparr>proc := ?pr1\<lparr>user := u'', funcs := (funcs ?pr1)(pFunc := None)\<rparr>\<rparr>)"
    using nz d1 ex
    by (simp add: dialog_proc_def retrieve_self_def GetWindowLongPtrW_DWLP_USER_def
          WM_UI_WORK_THREAD_neq value_or_def)
  then show "work (dialog_proc os hfont) w pFunc func s =
        (Inr (), s\<lparr>proc := (proc s)\<lparr>user := u'', funcs := (funcs (proc s))(pFunc := None)\<rparr>\<rparr>)"
    by (simp add: work_def)
qed


theorem ui_work_runs_function_on_target_witness:
  "work (dialog_proc demo_os 0) 0x2000 0x7000 add_ten created_system =
     (Inr (), created_system\<lparr>proc := (proc created_system)
        \<lparr>user := 10, funcs := (funcs (proc created_system))(0x7000 := None)\<rparr>\<rparr>) \<and>
   ui_work_thread_handler \<lparr>wparam = 0xc0def00d, lparam = 0x7000\<rparr>
       (idle_process\<lparr>funcs := [0x7000 \<mapsto> add_ten]\<rparr>) =
     (Inr 0, (idle_process\<lparr>funcs := [0x7000 \<mapsto> add_ten]\<rparr>)
        \<lparr>user := 10, funcs := (funcs (idle_process\<lparr>funcs := [0x7000 \<mapsto> add_ten]\<rparr>))(0x7000 := None)\<rparr>) \<and>
   ui_work_thread_handler \<lparr>wparam = 0xc0def00d, lparam = 0x7000\<rparr>
       (idle_process\<lparr>funcs := [0x7000 \<mapsto> always_throws]\<rparr>) =
     (Inr 0, (idle_process\<lparr>funcs := [0x7000 \<mapsto> always_throws]\<rparr>)
        \<lparr>user := 0, quit_posted := True,
         funcs := (funcs (idle_process\<lparr>funcs := [0x7000 \<mapsto> always_throws]\<rparr>))(0x7000 := None)\<rparr>) \<and>
   ui_work_thread_handler \<lparr>wparam = 1, lparam = 0x7000\<rparr>
       (idle_process\<lparr>funcs := [0x7000 \<mapsto> add_ten]\<rparr>) =
     (Inr 0, idle_process\<lparr>funcs := [0x7000 \<mapsto> add_ten]\<rparr>)"
proof (intro conjI)
  note T = ui_work_runs_function_on_target
  note rest = T [THEN conjunct2, THEN conjunct2, THEN conjunct2]
  have f: "store_find (msgs demo_handler) WM_UI_WORK_THREAD = Some ui_work_thread_handler"
    by (simp add: demo_handler_def store_find_def store_add_def wm_notify_def wm_def
          new_base_msg_handler_def default_msg_handlers_def WM_CLOSE_def WM_CREATE_def
          WM_UI_WORK_THREAD_def WM_APP_def)
  show "work (dialog_proc demo_os 0) 0x2000 0x7000 add_ten created_system =
     (Inr (), created_system\<lparr>proc := (proc created_system)
        \<lparr>user := 10, funcs := (funcs (proc created_system))(0x7000 := None)\<rparr>\<rparr>)"
    by (rule T [where d = "demo_dialog\<lparr>hWnd := 0x2000\<rparr>", THEN conjunct2, THEN conjunct2,
               THEN conjunct2, THEN conjunct2, THEN conjunct2, THEN conjunct2, THEN mp])
       (simp add: demo_deref f add_ten_def demo_process_def idle_process_def)
  show "ui_work_thread_handler \<lparr>wparam = 0xc0def00d, lparam = 0x7000\<rparr>
       (idle_process\<lparr>funcs := [0x7000 \<mapsto> add_ten]\<rparr>) =
     (Inr 0, (idle_process\<lparr>funcs := [0x7000 \<mapsto> add_ten]\<rparr>)
        \<lparr>user := 10, funcs := (funcs (idle_process\<lparr>funcs := [0x7000 \<mapsto> add_ten]\<rparr>))(0x7000 := None)\<rparr>)"
    by (rule T [where f = add_ten, THEN conjunct2, THEN conjunct2, THEN conjunct2,
               THEN conjunct1, THEN mp])
       (simp add: add_ten_def idle_process_def)
  show "ui_work_thread_handler \<lparr>wparam = 0xc0def00d, lparam = 0x7000\<rparr>
       (idle_process\<lparr>funcs := [0x7000 \<mapsto> always_throws]\<rparr>) =
     (Inr 0, (idle_process\<lparr>funcs := [0x7000 \<mapsto> always_throws]\<rparr>)
        \<lparr>user := 0, quit_posted := True,
         funcs := (funcs (idle_process\<lparr>funcs := [0x7000 \<mapsto> always_throws]\<rparr>))(0x7000 := None)\<rparr>)"
    by (rule T [where f = always_throws and x = User_Exception, THEN conjunct2, THEN conjunct2,
               THEN conjunct2, THEN conjunct2, THEN conjunct1, THEN mp])
       (simp add: always_throws_def idle_process_def)
  show "ui_work_thread_handler \<lparr>wparam = 1, lparam = 0x7000\<rparr>
       (idle_process\<lparr>funcs := [0x7000 \<mapsto> add_ten]\<rparr>) =
     (Inr 0, idle_process\<lparr>funcs := [0x7000 \<mapsto> add_ten]\<rparr>)"
    by (rule rest [THEN conjunct2, THEN conjunct2, THEN conjunct1, THEN mp]) simp
qed

subsection \<open>msg_proxy: the named registration methods\<close>

text \<open>
  C2. Four of the named methods pass another message to \<open>wm\<close> than the one they are
  named after: \<open>wm_copy_data\<close> registers under \<open>WM_CREATE\<close>, \<open>wm_query_drag_icon\<close> under
  \<open>WM_QUERYNEWPALETTE\<close>, \<open>wm_get_hot_key\<close> under \<open>WM_GETFONT\<close> and
  \<open>wm_input_lang_change\<close> under \<open>WM_HELP\<close>. After such a registration on a new handler,
  no handler is found for the message of the method's name, and one is found for the
  other message.
\<close>

theorem named_registrations_store_under_other_messages:
  "search_handler (wm_copy_data (new_base_msg_handler dlg) f1) WM_COPYDATA wp lp p = Inr None \<and>
   search_handler (wm_copy_data (new_base_msg_handler dlg) f1) WM_CREATE wp lp p \<noteq> Inr None \<and>
   search_handler (wm_query_drag_icon (new_base_msg_handler dlg) f2) WM_QUERYDRAGICON wp lp p
     = Inr None \<and>
   search_handler (wm_query_drag_icon (new_base_msg_handler dlg) f2) WM_QUERYNEWPALETTE wp lp p
     \<noteq> Inr None \<and>
   search_handler (wm_get_hot_key (new_base_msg_handler dlg) f3) WM_GETHOTKEY wp lp p = Inr None \<and>
   search_handler (wm_get_hot_key (new_base_msg_handler dlg) f3) WM_GETFONT wp lp p \<noteq> Inr None \<and>
   search_handler (wm_input_lang_change (new_base_msg_handler dlg) f4) WM_INPUTLANGCHANGE wp lp p
     = Inr None \<and>
   search_handler (wm_input_lang_change (new_base_msg_handler dlg) f4) WM_HELP wp lp p
     \<noteq> Inr None"
  by (simp add: wm_copy_data_def wm_query_drag_icon_def wm_get_hot_key_def
        wm_input_lang_change_def WINLAMB_MSG_RET_TYPE_def WINLAMB_MSG_RET_VAL_def wm_def
        new_base_msg_handler_def default_msg_handlers_def store_add_def store_find_def
        search_handler_def WM_COPYDATA_def WM_CREATE_def WM_QUERYDRAGICON_def
        WM_QUERYNEWPALETTE_def WM_GETHOTKEY_def WM_GETFONT_def WM_INPUTLANGCHANGE_def
        WM_HELP_def WM_COMMAND_def WM_NOTIFY_def WM_UI_WORK_THREAD_def WM_APP_def)


end
